theory Spec2Isabelle
  imports Complex_Main "HOL-Library.Sublist" "HOL-Library.AList"
begin

section \<open>Strings\<close>

text \<open>
  A JavaScript string is modelled by the list of bytes of its UTF-8 encoding. The only
  string operations the pipeline applies are lower-casing, substring search for ASCII
  keywords and regular expressions over ASCII literals. A multi-byte UTF-8 sequence holds
  no ASCII byte, so an ASCII keyword occurs in the byte list exactly where it occurs in
  the string. \<open>toLowerCase\<close> rewrites the ASCII capitals and the two code points
  outside ASCII whose lower case holds an ASCII letter (U+212A KELVIN SIGN, lower case
  \<open>k\<close>; U+0130, lower case \<open>i\<close> followed by U+0307); the lower-casing of the other
  letters outside ASCII is left out, since no ASCII keyword or pattern can observe it.
\<close>

definition ascii_lower :: "char \<Rightarrow> char" where
  "ascii_lower c = (case c of Char b0 b1 b2 b3 b4 b5 b6 b7 \<Rightarrow>
      if 65 \<le> (of_char c :: nat) \<and> (of_char c :: nat) \<le> 90
      then Char b0 b1 b2 b3 b4 True b6 b7 else c)"

fun toLowerCase :: "string \<Rightarrow> string" where
  "toLowerCase [] = []"
| "toLowerCase (c # cs) =
     (if prefix [CHR 0xE2, CHR 0x84, CHR 0xAA] (c # cs)
        then CHR ''k'' # toLowerCase (drop 2 cs)
      else if prefix [CHR 0xC4, CHR 0xB0] (c # cs)
        then [CHR ''i'', CHR 0xCC, CHR 0x87] @ toLowerCase (drop 1 cs)
      else ascii_lower c # toLowerCase cs)"

text \<open>\<open>text.includes(kw)\<close>: \<open>kw\<close> occurs in \<open>text\<close> as a contiguous substring.\<close>

fun str_includes :: "string \<Rightarrow> string \<Rightarrow> bool" where
  "str_includes [] kw = (kw = [])"
| "str_includes (c # cs) kw = (prefix kw (c # cs) \<or> str_includes cs kw)"

text \<open>\<open>xs.join(sep)\<close>\<close>

fun join :: "string \<Rightarrow> string list \<Rightarrow> string" where
  "join sep [] = []"
| "join sep [x] = x"
| "join sep (x # y # ys) = x @ sep @ join sep (y # ys)"

subsection \<open>The regular expressions of the trusted-sender table\<close>

text \<open>
  Every pattern of \<open>TRUSTED_SENDER_PATTERNS\<close> is either a literal or two literals
  separated by \<open>.*\<close>, all with the flag \<open>i\<close>. The dot matches any character but a line
  terminator (LF, CR, U+2028, U+2029). Without the flag \<open>u\<close>, case-insensitive matching
  never identifies a character outside ASCII with an ASCII one, so it is the comparison
  of the ASCII-lower-cased subject with the (lower-case) literal.
\<close>

datatype regex = Lit string | LitDotStarLit string string

text \<open>The longest prefix that \<open>.*\<close> can consume.\<close>

fun dot_run :: "string \<Rightarrow> string" where
  "dot_run [] = []"
| "dot_run (c # cs) =
     (if c = CHR 0x0A \<or> c = CHR 0x0D
         \<or> prefix [CHR 0xE2, CHR 0x80, CHR 0xA8] (c # cs)
         \<or> prefix [CHR 0xE2, CHR 0x80, CHR 0xA9] (c # cs)
      then [] else c # dot_run cs)"

text \<open>\<open>a.*b\<close> matches when, after some occurrence of \<open>a\<close>, \<open>b\<close> occurs before the
  next line terminator.\<close>

fun dotstar_search :: "string \<Rightarrow> string \<Rightarrow> string \<Rightarrow> bool" where
  "dotstar_search a b [] = (a = [] \<and> b = [])"
| "dotstar_search a b (c # cs) =
     ((prefix a (c # cs) \<and> str_includes (dot_run (drop (length a) (c # cs))) b)
      \<or> dotstar_search a b cs)"

fun regex_test :: "regex \<Rightarrow> string \<Rightarrow> bool" where
  "regex_test (Lit a) s = str_includes (map ascii_lower s) a"
| "regex_test (LitDotStarLit a b) s = dotstar_search a b (map ascii_lower s)"

section \<open>Classifier: configuration\<close>

definition CATEGORIES_PLACEMENT_DRIVE :: string where
  "CATEGORIES_PLACEMENT_DRIVE = ''PLACEMENT_DRIVE''"
definition CATEGORIES_INTERVIEW :: string where
  "CATEGORIES_INTERVIEW = ''INTERVIEW''"
definition CATEGORIES_ASSESSMENT :: string where
  "CATEGORIES_ASSESSMENT = ''ASSESSMENT''"
definition CATEGORIES_SHORTLISTED :: string where
  "CATEGORIES_SHORTLISTED = ''SHORTLISTED''"
definition CATEGORIES_OTHER :: string where
  "CATEGORIES_OTHER = ''OTHER''"

text \<open>\<open>Object.values(CATEGORIES)\<close>\<close>

definition CATEGORIES_values :: "string list" where
  "CATEGORIES_values = [CATEGORIES_PLACEMENT_DRIVE, CATEGORIES_INTERVIEW,
     CATEGORIES_ASSESSMENT, CATEGORIES_SHORTLISTED, CATEGORIES_OTHER]"

record keyword_tiers =
  high :: "string list"
  medium :: "string list"
  low :: "string list"

text \<open>\<open>Object.entries(KEYWORD_SCORES)\<close>: the entries in insertion order.\<close>

definition KEYWORD_SCORES :: "(string \<times> keyword_tiers) list" where
  "KEYWORD_SCORES =
    [(''PLACEMENT_DRIVE'',
       \<lparr>high = [''placement drive'', ''campus placement'', ''placement season'',
                 ''placement opportunity'', ''campus recruitment'', ''recruitment drive'',
                 ''pool campus'', ''off campus placement''],
        medium = [''placement'', ''campus hiring'', ''fresher hiring'', ''batch hiring'',
                 ''graduate hiring''],
        low = [''career opportunity'', ''job opportunity'', ''hiring'']\<rparr>),
     (''INTERVIEW'',
       \<lparr>high = [''interview schedule'', ''interview invitation'', ''technical interview'',
                 ''hr interview'', ''interview round'', ''interview slot'', ''interview call'',
                 ''interview date'', ''join the interview'', ''interview link'',
                 ''zoom interview'', ''teams interview''],
        medium = [''interview'', ''interviewing'', ''face to face'', ''video call'',
                 ''screening call''],
        low = [''discussion'', ''meeting scheduled'']\<rparr>),
     (''ASSESSMENT'',
       \<lparr>high = [''online assessment'', ''coding test'', ''aptitude test'', ''technical test'',
                 ''online test'', ''assessment link'', ''test invitation'', ''hackerrank'',
                 ''hackerearth'', ''codility'', ''mettl'', ''amcat'', ''cocubes'',
                 ''assessment invitation''],
        medium = [''assessment'', ''test scheduled'', ''exam link'', ''proctored test'',
                 ''coding challenge''],
        low = [''test'', ''quiz'', ''evaluation'']\<rparr>),
     (''SHORTLISTED'',
       \<lparr>high = [''you have been shortlisted'', ''shortlisted for'',
                 ''congratulations you are shortlisted'', ''selected for next round'',
                 ''cleared the round'', ''qualified for'', ''you are selected'',
                 ''offer letter'', ''job offer'', ''we are pleased to offer''],
        medium = [''shortlisted'', ''selected'', ''congratulations'', ''next round'',
                 ''moved forward''],
        low = [''next steps'', ''proceeding'', ''qualifying'']\<rparr>)]"

definition NEGATIVE_KEYWORDS :: "string list" where
  "NEGATIVE_KEYWORDS =
    [''unsubscribe'', ''newsletter'', ''marketing'', ''promotional'', ''sale'', ''discount'',
     ''webinar registration'', ''course enrollment'', ''learn more'', ''free trial'']"

definition TRUSTED_SENDER_PATTERNS :: "regex list" where
  "TRUSTED_SENDER_PATTERNS =
    [Lit ''hr@'', Lit ''careers@'', Lit ''recruitment@'', Lit ''talent@'', Lit ''hiring@'',
     LitDotStarLit ''noreply'' ''placement'', LitDotStarLit ''campus'' ''team'',
     Lit ''@naukri.com'', Lit ''@linkedin.com'', Lit ''@monster.com'', Lit ''@indeed.com'',
     Lit ''@internshala.com'', Lit ''@hackerrank.com'', Lit ''@hackerearth.com'',
     Lit ''@codility.com'', Lit ''@mettl.com'']"

definition AI_THRESHOLD_LOW :: int where "AI_THRESHOLD_LOW = 3"
definition AI_THRESHOLD_HIGH :: int where "AI_THRESHOLD_HIGH = 8"

section \<open>Normalized message\<close>

datatype provider = Gmail | Outlook

definition provider_name :: "provider \<Rightarrow> string" where
  "provider_name p = (case p of Gmail \<Rightarrow> ''gmail'' | Outlook \<Rightarrow> ''outlook'')"

text \<open>
  The object built by \<open>parseGmailMessage\<close> and \<open>parseOutlookMessage\<close>. Both fill every
  field below with a string (possibly empty), the date with a time in milliseconds.
  The field \<open>from\<close> is written \<open>from_addr\<close>.
\<close>

record email =
  provider :: provider
  messageId :: string
  threadId :: "string option"
  subject :: string
  from_addr :: string
  to_addr :: string
  date :: int
  snippet :: string
  body :: string
  webLink :: string
  isSpam :: bool

section \<open>Classifier, level 1: keyword scoring\<close>

text \<open>One of the three inner loops: each keyword of the tier found in the text adds
  \<open>pts\<close> to the score and is pushed to the matched keywords.\<close>

fun tier_loop :: "string \<Rightarrow> int \<Rightarrow> string list \<Rightarrow> int \<times> string list \<Rightarrow> int \<times> string list" where
  "tier_loop text pts [] acc = acc"
| "tier_loop text pts (kw # kws) (score, matchedKeywords) =
     tier_loop text pts kws
       (if str_includes text kw then (score + pts, matchedKeywords @ [kw])
        else (score, matchedKeywords))"

fun negative_loop :: "string \<Rightarrow> string list \<Rightarrow> int \<Rightarrow> int" where
  "negative_loop text [] negativeScore = negativeScore"
| "negative_loop text (keyword # rest) negativeScore =
     negative_loop text rest (if str_includes text keyword then negativeScore + 2 else negativeScore)"

text \<open>The sender loop leaves at the first pattern that matches.\<close>

fun sender_loop :: "string \<Rightarrow> regex list \<Rightarrow> int" where
  "sender_loop sender [] = 0"
| "sender_loop sender (pattern # rest) =
     (if regex_test pattern sender then 3 else sender_loop sender rest)"

text \<open>The body of the category loop up to the entry of \<open>categoryScores\<close>.\<close>

definition score_category :: "string \<Rightarrow> int \<Rightarrow> int \<Rightarrow> keyword_tiers \<Rightarrow> int \<times> string list" where
  "score_category text senderBonus negativeScore kws =
     (let (score, matchedKeywords) =
            tier_loop text 1 (low kws)
              (tier_loop text 2 (medium kws)
                (tier_loop text 3 (high kws) (0, [])));
          score = score + senderBonus;
          score = max 0 (score - negativeScore)
      in (score, matchedKeywords))"

text \<open>The category loop; its state is \<open>categoryScores\<close>, \<open>maxCategory\<close>, \<open>maxScore\<close>.\<close>

fun category_loop ::
  "string \<Rightarrow> int \<Rightarrow> int \<Rightarrow> (string \<times> keyword_tiers) list \<Rightarrow>
   (string \<times> int \<times> string list) list \<times> string \<times> int \<Rightarrow>
   (string \<times> int \<times> string list) list \<times> string \<times> int" where
  "category_loop text senderBonus negativeScore [] st = st"
| "category_loop text senderBonus negativeScore ((category, kws) # rest)
       (categoryScores, maxCategory, maxScore) =
     (let (score, matchedKeywords) = score_category text senderBonus negativeScore kws;
          categoryScores = categoryScores @ [(category, score, matchedKeywords)]
      in category_loop text senderBonus negativeScore rest
           (if score > maxScore then (categoryScores, category, score)
            else (categoryScores, maxCategory, maxScore)))"

record keyword_result =
  important :: bool
  category :: string
  score :: int
  reason :: string
  categoryScores :: "(string \<times> int \<times> string list) list"

definition scan_text :: "email \<Rightarrow> string" where
  "scan_text e = toLowerCase (subject e @ '' '' @ snippet e @ '' '' @ body e)"

definition keywordClassify :: "email \<Rightarrow> keyword_result" where
  "keywordClassify e =
     (let text = scan_text e;
          sender = toLowerCase (from_addr e);
          negativeScore = negative_loop text NEGATIVE_KEYWORDS 0;
          senderBonus = sender_loop sender TRUSTED_SENDER_PATTERNS;
          (categoryScores, maxCategory, maxScore) =
             category_loop text senderBonus negativeScore KEYWORD_SCORES
               ([], CATEGORIES_OTHER, 0);
          important = (maxCategory \<noteq> CATEGORIES_OTHER \<and> maxScore \<ge> 2);
          matchedKws = (case map_of categoryScores maxCategory of
                          Some (s, kws) \<Rightarrow> kws | None \<Rightarrow> []);
          reason = (if length matchedKws > 0
                    then ''Matched keywords: '' @ join '', '' (take 3 matchedKws)
                    else ''No strong keyword matches'')
      in \<lparr>important = important, category = maxCategory, score = maxScore,
          reason = reason, categoryScores = categoryScores\<rparr>)"

text \<open>The score the category loop of \<open>keywordClassify\<close> computes for one entry of
  \<open>KEYWORD_SCORES\<close>.\<close>

definition category_score :: "email \<Rightarrow> keyword_tiers \<Rightarrow> int" where
  "category_score e kws =
     fst (score_category (scan_text e)
            (sender_loop (toLowerCase (from_addr e)) TRUSTED_SENDER_PATTERNS)
            (negative_loop (scan_text e) NEGATIVE_KEYWORDS 0) kws)"

text \<open>
  The score of a category in the words of the specification, for comparison with the
  loops: 3, 2 and 1 points for each keyword of the high, medium and low tier found in
  the scan text, a flat 3 when the sender matches a trusted pattern, 2 off for each
  negative keyword found, floored at 0.
\<close>

definition hits :: "email \<Rightarrow> string list \<Rightarrow> int" where
  "hits e kws = int (length (filter (str_includes (scan_text e)) kws))"

definition spec_category_score :: "email \<Rightarrow> keyword_tiers \<Rightarrow> int" where
  "spec_category_score e kws =
     max 0 (3 * hits e (high kws) + 2 * hits e (medium kws) + 1 * hits e (low kws)
            + (if list_ex (\<lambda>pattern. regex_test pattern (toLowerCase (from_addr e)))
                    TRUSTED_SENDER_PATTERNS then 3 else 0)
            - 2 * hits e NEGATIVE_KEYWORDS)"

section \<open>Classifier, level 2: the AI response\<close>

text \<open>
  The values \<open>JSON.parse\<close> can return, and what the validation code makes of them. An
  array is an object too: besides its elements it carries the named properties assigned
  to it. A number is a real (the value of the double).
\<close>

datatype jsval =
    JNull
  | JBool bool
  | JNum real
  | JStr string
  | JArray "jsval list" "(string \<times> jsval) list"
  | JObject "(string \<times> jsval) list"

text \<open>
  \<open>result.k\<close> for a value that is not \<open>null\<close> and one of the property names
  \<open>important\<close>, \<open>category\<close>, \<open>confidence\<close>, \<open>reason\<close>, \<open>method\<close>: an own property of
  an object or array, \<open>undefined\<close> (\<open>None\<close>) on a boolean, a number or a string, whose
  prototypes have no property of these names.
\<close>

fun get_prop :: "jsval \<Rightarrow> string \<Rightarrow> jsval option" where
  "get_prop (JObject ps) k = map_of ps k"
| "get_prop (JArray xs ps) k = map_of ps k"
| "get_prop v k = None"

text \<open>
  \<open>result.k = x\<close>. The module is not in strict mode, so the assignment to a property
  of a boolean, a number or a string does nothing and raises nothing.
\<close>

fun set_prop :: "jsval \<Rightarrow> string \<Rightarrow> jsval \<Rightarrow> jsval" where
  "set_prop (JObject ps) k x = JObject (AList.update k x ps)"
| "set_prop (JArray xs ps) k x = JArray xs (AList.update k x ps)"
| "set_prop v k x = v"

text \<open>The \<open>try\<close> block of \<open>parseAIResponse\<close> after \<open>JSON.parse\<close> has returned. Reading
  a property of \<open>null\<close> raises a TypeError, which the \<open>catch\<close> of the caller receives.\<close>

definition validate :: "jsval \<Rightarrow> string + jsval" where
  "validate result0 =
     (if result0 = JNull then Inl ''TypeError: Cannot read properties of null''
      else
        let result = (case get_prop result0 ''important'' of
                        Some (JBool b) \<Rightarrow> result0
                      | _ \<Rightarrow> set_prop result0 ''important'' (JBool False));
            result = (case get_prop result ''category'' of
                        Some (JStr c) \<Rightarrow>
                          if c \<in> set CATEGORIES_values then result
                          else set_prop result ''category'' (JStr CATEGORIES_OTHER)
                      | _ \<Rightarrow> set_prop result ''category'' (JStr CATEGORIES_OTHER));
            result = (case get_prop result ''confidence'' of
                        Some (JNum x) \<Rightarrow>
                          if x < 0 \<or> x > 1 then set_prop result ''confidence'' (JNum (1/2))
                          else result
                      | _ \<Rightarrow> set_prop result ''confidence'' (JNum (1/2)));
            result = (case get_prop result ''reason'' of
                        Some (JStr r) \<Rightarrow> result
                      | _ \<Rightarrow> set_prop result ''reason'' (JStr ''AI classification''))
        in Inr result)"

text \<open>\<open>responseText.match(/\{[\s\S]*\}/)\<close>: from the first opening brace to the last
  closing brace after it.\<close>

definition json_match :: "string \<Rightarrow> string option" where
  "json_match responseText =
     (let from_brace = dropWhile (\<lambda>c. c \<noteq> CHR ''{'') responseText;
          m = rev (dropWhile (\<lambda>c. c \<noteq> CHR ''}'') (rev from_brace))
      in if m = [] then None else Some m)"

definition unparseable :: jsval where
  "unparseable = JObject [(''important'', JBool False), (''category'', JStr CATEGORIES_OTHER),
     (''confidence'', JNum 0), (''reason'', JStr ''Failed to parse AI response'')]"

text \<open>
  \<open>parseAIResponse\<close> calls itself on the extracted substring. The first argument is the
  number of frames left on the call stack: a call with none left raises a RangeError,
  as the engine does, and the \<open>try\<close> around the recursive call catches it and falls
  through to the default. \<open>JSON.parse\<close> is a built-in of the language and a parameter
  here: \<open>None\<close> stands for its SyntaxError.
\<close>

fun parseAIResponse :: "nat \<Rightarrow> (string \<Rightarrow> jsval option) \<Rightarrow> string \<Rightarrow> string + jsval" where
  "parseAIResponse 0 parse responseText = Inl ''RangeError: Maximum call stack size exceeded''"
| "parseAIResponse (Suc stack) parse responseText =
     (case (case parse responseText of
              None \<Rightarrow> Inl ''SyntaxError''
            | Some result \<Rightarrow> validate result) of
        Inr result \<Rightarrow> Inr result
      | Inl parseError \<Rightarrow>
          (case (case json_match responseText of
                   Some m \<Rightarrow> (case parseAIResponse stack parse m of
                                Inr r \<Rightarrow> Some r
                              | Inl e \<Rightarrow> None)
                 | None \<Rightarrow> None) of
             Some r \<Rightarrow> Inr r
           | None \<Rightarrow> Inr unparseable))"

text \<open>
  What lies outside the classifier for one call of \<open>classifyEmail\<close>: whether
  \<open>GEMINI_API_KEY\<close> is set, the outcome of the request to the AI backend (\<open>Inl\<close> the
  message of the error \<open>axios.post\<close> raises, also on the timeout; \<open>Inr\<close> the text found
  in the response, \<open>None\<close> when there is none), \<open>JSON.parse\<close>, and the stack left.
\<close>

record ai_env =
  GEMINI_API_KEY :: bool
  post :: "string + string option"
  JSON_parse :: "string \<Rightarrow> jsval option"
  stack :: nat

definition aiClassify :: "ai_env \<Rightarrow> string + jsval" where
  "aiClassify env =
     (if \<not> GEMINI_API_KEY env then Inl ''Gemini API key not configured''
      else case post env of
             Inl error \<Rightarrow> Inl error
           | Inr None \<Rightarrow> Inl ''Empty response from Gemini''
           | Inr (Some responseText) \<Rightarrow>
               if responseText = [] then Inl ''Empty response from Gemini''
               else parseAIResponse (stack env) (JSON_parse env) responseText)"

text \<open>
  A classification result is an object, kept as the list of its properties. Of the
  spread \<open>{...aiResult, method: 'ai'}\<close> the properties with an index as name (of an array
  or a string) are left out: nothing reads them.
\<close>

type_synonym classification = "(string \<times> jsval) list"

fun own_props :: "jsval \<Rightarrow> (string \<times> jsval) list" where
  "own_props (JObject ps) = ps"
| "own_props (JArray xs ps) = ps"
| "own_props v = []"

definition keyword_classification :: "keyword_result \<Rightarrow> string \<Rightarrow> classification" where
  "keyword_classification keywordResult m =
     [(''important'', JBool (important keywordResult)),
      (''category'', JStr (category keywordResult)),
      (''confidence'', JNum (min (real_of_int (score keywordResult) / 10) 1)),
      (''reason'', JStr (reason keywordResult)),
      (''method'', JStr m)]"

definition classifyEmail :: "ai_env \<Rightarrow> email \<Rightarrow> classification" where
  "classifyEmail env e =
     (let keywordResult = keywordClassify e
      in if score keywordResult \<ge> AI_THRESHOLD_HIGH \<or> score keywordResult \<le> AI_THRESHOLD_LOW
         then keyword_classification keywordResult ''keyword''
         else if GEMINI_API_KEY env
         then (case aiClassify env of
                 Inr aiResult \<Rightarrow> AList.update ''method'' (JStr ''ai'') (own_props aiResult)
               | Inl error \<Rightarrow> keyword_classification keywordResult ''keyword_fallback'')
         else keyword_classification keywordResult ''keyword_fallback'')"

text \<open>Truthiness of a property read, \<open>undefined\<close> being \<open>None\<close>.\<close>

fun truthy :: "jsval option \<Rightarrow> bool" where
  "truthy None = False"
| "truthy (Some JNull) = False"
| "truthy (Some (JBool b)) = b"
| "truthy (Some (JNum x)) = (x \<noteq> 0)"
| "truthy (Some (JStr s)) = (s \<noteq> [])"
| "truthy (Some (JArray xs ps)) = True"
| "truthy (Some (JObject ps)) = True"

section \<open>Storage\<close>

text \<open>
  The two collections the pipeline uses, as lists of documents, and the calls made to
  the bot, in order, each with its outcome. Times are milliseconds since the epoch. The
  storage operations are updates of these lists; they do not fail.
\<close>

record provider_config =
  enabled :: bool
  refreshToken :: "string option"
  lastError :: "string option"
  lastErrorAt :: "int option"

record 'a per_provider =
  gmail :: 'a
  outlook :: 'a

definition of_provider :: "provider \<Rightarrow> 'a per_provider \<Rightarrow> 'a" where
  "of_provider p x = (case p of Gmail \<Rightarrow> gmail x | Outlook \<Rightarrow> outlook x)"

definition set_provider :: "provider \<Rightarrow> 'a \<Rightarrow> 'a per_provider \<Rightarrow> 'a per_provider" where
  "set_provider p v x = (case p of Gmail \<Rightarrow> x\<lparr>gmail := v\<rparr> | Outlook \<Rightarrow> x\<lparr>outlook := v\<rparr>)"

record settings =
  notificationsEnabled :: bool
  categories :: "(string \<times> bool) list"

record user =
  uid :: string
  telegramChatId :: string
  firstName :: string
  providers :: "provider_config per_provider"
  settings :: settings
  lastChecked :: "int option per_provider"
  lastFailureAlert :: "int option per_provider"
  isActive :: bool

text \<open>An Email document: the fields of the message are kept together in \<open>message\<close>.\<close>

record email_doc =
  userId :: string
  telegramChatId :: string
  uniqueId :: string
  message :: email
  classification :: classification
  notified :: bool
  notifiedAt :: "int option"
  createdAt :: int

datatype bot_call =
    SendEmailNotification string email classification "string + bool"
  | SendFailureAlert string provider string "string + bool"

record world =
  users :: "user list"
  emails :: "email_doc list"
  bot_calls :: "bot_call list"

definition FAILURE_ALERT_COOLDOWN_MS :: int where
  "FAILURE_ALERT_COOLDOWN_MS = 2 * 60 * 60 * 1000"

definition getUserByChatId :: "string \<Rightarrow> world \<Rightarrow> user option" where
  "getUserByChatId chatId w = find (\<lambda>u. user.telegramChatId u = chatId) (users w)"

definition getActiveUsers :: "world \<Rightarrow> user list" where
  "getActiveUsers w =
     filter (\<lambda>u. isActive u \<and> (enabled (gmail (providers u)) \<or> enabled (outlook (providers u))))
       (users w)"

text \<open>\<open>User.updateOne\<close> with a filter on the chat id: the first match is updated.\<close>

fun User_updateOne :: "string \<Rightarrow> (user \<Rightarrow> user) \<Rightarrow> user list \<Rightarrow> user list" where
  "User_updateOne chatId f [] = []"
| "User_updateOne chatId f (u # us) =
     (if user.telegramChatId u = chatId then f u # us else u # User_updateOne chatId f us)"

definition recordProviderError :: "int \<Rightarrow> string \<Rightarrow> provider \<Rightarrow> string \<Rightarrow> world \<Rightarrow> world" where
  "recordProviderError now chatId p error w =
     w\<lparr>users := User_updateOne chatId
          (\<lambda>u. u\<lparr>providers := set_provider p
                   ((of_provider p (providers u))\<lparr>lastError := Some error, lastErrorAt := Some now\<rparr>)
                   (providers u)\<rparr>)
          (users w)\<rparr>"

definition updateLastChecked :: "int \<Rightarrow> string \<Rightarrow> provider \<Rightarrow> world \<Rightarrow> world" where
  "updateLastChecked now chatId p w =
     w\<lparr>users := User_updateOne chatId
          (\<lambda>u. u\<lparr>lastChecked := set_provider p (Some now) (lastChecked u)\<rparr>) (users w)\<rparr>"

definition canSendFailureAlert :: "int \<Rightarrow> string \<Rightarrow> provider \<Rightarrow> world \<Rightarrow> bool" where
  "canSendFailureAlert now chatId p w =
     (case getUserByChatId chatId w of
        None \<Rightarrow> False
      | Some u \<Rightarrow>
          (case of_provider p (lastFailureAlert u) of
             None \<Rightarrow> True
           | Some lastAlert \<Rightarrow> now - lastAlert \<ge> FAILURE_ALERT_COOLDOWN_MS))"

definition recordFailureAlert :: "int \<Rightarrow> string \<Rightarrow> provider \<Rightarrow> world \<Rightarrow> world" where
  "recordFailureAlert now chatId p w =
     w\<lparr>users := User_updateOne chatId
          (\<lambda>u. u\<lparr>lastFailureAlert := set_provider p (Some now) (lastFailureAlert u)\<rparr>) (users w)\<rparr>"

definition isEmailNotified :: "string \<Rightarrow> provider \<Rightarrow> string \<Rightarrow> world \<Rightarrow> bool" where
  "isEmailNotified chatId p mid w =
     (find (\<lambda>d. email_doc.telegramChatId d = chatId \<and> provider (message d) = p
                 \<and> messageId (message d) = mid \<and> notified d) (emails w) \<noteq> None)"

text \<open>\<open>Email.findOneAndUpdate({ uniqueId }, ..., { upsert: true })\<close>: the first document
  with that \<open>uniqueId\<close> is updated; when there is none, a new one is inserted.\<close>

fun Email_findOneAndUpdate ::
  "string \<Rightarrow> (email_doc \<Rightarrow> email_doc) \<Rightarrow> email_doc \<Rightarrow> email_doc list \<Rightarrow> email_doc list" where
  "Email_findOneAndUpdate u f ins [] = [ins]"
| "Email_findOneAndUpdate u f ins (d # ds) =
     (if uniqueId d = u then f d # ds else d # Email_findOneAndUpdate u f ins ds)"

text \<open>The five properties \<open>saveEmail\<close> copies from the classification; one that is
  \<open>undefined\<close> is not stored.\<close>

definition classification_fields :: "classification \<Rightarrow> classification" where
  "classification_fields c =
     List.map_filter (\<lambda>k. map_option (Pair k) (map_of c k))
       [''important'', ''category'', ''confidence'', ''reason'', ''method'']"

definition saveEmail :: "int \<Rightarrow> user \<Rightarrow> email \<Rightarrow> classification \<Rightarrow> world \<Rightarrow> world" where
  "saveEmail now u e c w =
     (let unique = provider_name (provider e) @ ''_'' @ messageId e
      in w\<lparr>emails := Email_findOneAndUpdate unique
             (\<lambda>d. d\<lparr>classification := classification_fields c, notified := True,
                     notifiedAt := Some now\<rparr>)
             \<lparr>userId = uid u, telegramChatId = user.telegramChatId u, uniqueId = unique,
              message = e, classification = classification_fields c, notified = True,
              notifiedAt = Some now, createdAt = now\<rparr>
             (emails w)\<rparr>)"

section \<open>Provider sweep\<close>

definition DEFAULT_LOOKBACK_MINUTES :: int where
  "DEFAULT_LOOKBACK_MINUTES = 30"

text \<open>\<open>getSinceTimestamp\<close>; the first argument is the value of \<open>Date.now()\<close>. A stored
  date is an object and so truthy: only its absence takes the last branch.\<close>

definition getSinceTimestamp :: "int \<Rightarrow> user \<Rightarrow> provider \<Rightarrow> int" where
  "getSinceTimestamp now u p =
     (case of_provider p (lastChecked u) of
        Some lastChecked_p \<Rightarrow>
          (let thirtyMinsAgo = now - DEFAULT_LOOKBACK_MINUTES * 60 * 1000
           in max lastChecked_p thirtyMinsAgo)
      | None \<Rightarrow> now - DEFAULT_LOOKBACK_MINUTES * 60 * 1000)"

text \<open>
  What lies outside the pipeline during the sweep of one provider for one user and the
  handling of its failure: the readings of the clock, the outcome of the fetch adapter
  (\<open>Inl\<close> the message of the error it raises), the AI backend for each message, and the
  outcome of each call to the bot (\<open>Inr True\<close> delivered, \<open>Inr False\<close> not delivered,
  \<open>Inl\<close> the call raises: \<open>getBot()\<close> stands outside the \<open>try\<close> of both send functions).
\<close>

record provider_env =
  now_since :: int
  fetchEmails :: "string option \<Rightarrow> int \<Rightarrow> string + email list"
  ai :: "email \<Rightarrow> ai_env"
  sendEmailNotification :: "email \<Rightarrow> string + bool"
  now_saved :: "email \<Rightarrow> int"
  now_checked :: int
  now_error :: int
  now_alert_check :: int
  sendFailureAlert :: "string + bool"
  now_alert :: int

record counts =
  emailsScanned :: nat
  importantFound :: nat
  notificationsSent :: nat

text \<open>The name under which \<open>classification.category\<close> indexes the category settings.
  The classifier yields a string or leaves the property out; a number, array or object
  is not given a name here.\<close>

fun property_key :: "jsval option \<Rightarrow> string option" where
  "property_key None = Some ''undefined''"
| "property_key (Some (JStr s)) = Some s"
| "property_key (Some JNull) = Some ''null''"
| "property_key (Some (JBool b)) = Some (if b then ''true'' else ''false'')"
| "property_key (Some v) = None"

definition categoryEnabled :: "user \<Rightarrow> classification \<Rightarrow> bool" where
  "categoryEnabled u c =
     (case property_key (map_of c ''category'') of
        Some k \<Rightarrow> map_of (categories (settings u)) k \<noteq> Some False
      | None \<Rightarrow> True)"

text \<open>The body of the loop over the fetched messages, with its \<open>try\<close> and \<open>catch\<close>.\<close>

definition processProvider_step ::
  "provider_env \<Rightarrow> user \<Rightarrow> provider \<Rightarrow> email \<Rightarrow> counts \<times> world \<Rightarrow> counts \<times> world" where
  "processProvider_step env u p e st =
     (case st of (result, w) \<Rightarrow>
       let alreadyNotified = isEmailNotified (user.telegramChatId u) p (messageId e) w
       in if alreadyNotified then (result, w)
          else
            let c = classifyEmail (ai env e) e
            in if truthy (map_of c ''important'') \<and> categoryEnabled u c
               then
                 let result = result\<lparr>importantFound := importantFound result + 1\<rparr>;
                     outcome = sendEmailNotification env e;
                     w = w\<lparr>bot_calls := bot_calls w
                            @ [SendEmailNotification (user.telegramChatId u) e c outcome]\<rparr>
                 in (case outcome of
                       Inl emailError \<Rightarrow> (result, w)
                     | Inr sent \<Rightarrow>
                         if sent
                         then (result\<lparr>notificationsSent := notificationsSent result + 1\<rparr>,
                               saveEmail (now_saved env e) u e c w)
                         else (result, w))
               else (result, w))"

definition processProvider ::
  "provider_env \<Rightarrow> user \<Rightarrow> provider \<Rightarrow> world \<Rightarrow> (string + counts) \<times> world" where
  "processProvider env u p w =
     (let token = refreshToken (of_provider p (providers u));
          sinceTimestamp = getSinceTimestamp (now_since env) u p
      in case fetchEmails env token sinceTimestamp of
           Inl error \<Rightarrow> (Inl error, w)
         | Inr fetched \<Rightarrow>
             (case fold (processProvider_step env u p) fetched
                     (\<lparr>emailsScanned = length fetched, importantFound = 0,
                       notificationsSent = 0\<rparr>, w) of
                (result, w) \<Rightarrow>
                  (Inr result, updateLastChecked (now_checked env) (user.telegramChatId u) p w)))"

definition handleProviderFailure ::
  "provider_env \<Rightarrow> user \<Rightarrow> provider \<Rightarrow> string \<Rightarrow> world \<Rightarrow> world" where
  "handleProviderFailure env u p errorMessage w =
     (let w = recordProviderError (now_error env) (user.telegramChatId u) p errorMessage w;
          canAlert = canSendFailureAlert (now_alert_check env) (user.telegramChatId u) p w
      in if canAlert
         then
           let outcome = sendFailureAlert env;
               w = w\<lparr>bot_calls := bot_calls w
                      @ [SendFailureAlert (user.telegramChatId u) p errorMessage outcome]\<rparr>
           in (case outcome of
                 Inl error \<Rightarrow> w
               | Inr sent \<Rightarrow>
                   if sent then recordFailureAlert (now_alert env) (user.telegramChatId u) p w
                   else w)
         else w)"

section \<open>User sweep and run\<close>

record user_result = counts +
  name :: string
  chatId :: string
  errors :: "string list"

text \<open>One of the two provider blocks of \<open>processUserEmails\<close>.\<close>

definition provider_block ::
  "(provider \<Rightarrow> provider_env) \<Rightarrow> user \<Rightarrow> provider \<Rightarrow> user_result \<times> world \<Rightarrow> user_result \<times> world" where
  "provider_block env u p st =
     (case st of (result, w) \<Rightarrow>
       let cfg = of_provider p (providers u)
       in if enabled cfg \<and> refreshToken cfg \<noteq> None \<and> refreshToken cfg \<noteq> Some []
          then (case processProvider (env p) u p w of
                  (Inr providerResult, w) \<Rightarrow>
                    (result\<lparr>emailsScanned := emailsScanned result + emailsScanned providerResult,
                            importantFound := importantFound result + importantFound providerResult,
                            notificationsSent :=
                              notificationsSent result + notificationsSent providerResult\<rparr>, w)
                | (Inl error, w) \<Rightarrow>
                    (result\<lparr>errors := errors result @ [provider_name p @ '': '' @ error]\<rparr>,
                     handleProviderFailure (env p) u p error w))
          else (result, w))"

definition processUserEmails ::
  "(provider \<Rightarrow> provider_env) \<Rightarrow> user \<Rightarrow> world \<Rightarrow> user_result \<times> world" where
  "processUserEmails env u w =
     (let result = \<lparr>emailsScanned = 0, importantFound = 0, notificationsSent = 0,
                    name = firstName u, chatId = user.telegramChatId u, errors = []\<rparr>
      in if \<not> notificationsEnabled (settings u) then (result, w)
         else provider_block env u Outlook (provider_block env u Gmail (result, w)))"

record summary = counts +
  usersProcessed :: nat
  failures :: nat
  userResults :: "user_result list"

text \<open>What lies outside the pipeline during one run: whether the initialisation raises,
  and the environment of each provider sweep, by chat id.\<close>

record run_env =
  ensureInitialized :: "string option"
  sweep :: "string \<Rightarrow> provider \<Rightarrow> provider_env"

definition cron_user :: "run_env \<Rightarrow> user \<Rightarrow> summary \<times> world \<Rightarrow> summary \<times> world" where
  "cron_user env u st =
     (case st of (summary, w) \<Rightarrow>
       (case processUserEmails (sweep env (user.telegramChatId u)) u w of
          (userResult, w) \<Rightarrow>
            (summary\<lparr>usersProcessed := usersProcessed summary + 1,
                     emailsScanned := emailsScanned summary + emailsScanned userResult,
                     importantFound := importantFound summary + importantFound userResult,
                     notificationsSent := notificationsSent summary + notificationsSent userResult,
                     failures := failures summary + length (errors userResult),
                     userResults := userResults summary @ [userResult]\<rparr>, w)))"

text \<open>The handler of \<open>/cron/check\<close>: \<open>Inl\<close> is the response with status 500.\<close>

definition cron_check :: "run_env \<Rightarrow> world \<Rightarrow> (string + summary) \<times> world" where
  "cron_check env w =
     (case ensureInitialized env of
        Some error \<Rightarrow> (Inl error, w)
      | None \<Rightarrow>
          (case fold (cron_user env) (getActiveUsers w)
                  (\<lparr>emailsScanned = 0, importantFound = 0, notificationsSent = 0,
                    usersProcessed = 0, failures = 0, userResults = []\<rparr>, w) of
             (summary, w) \<Rightarrow> (Inr summary, w)))"

section \<open>Observations on the stored state\<close>

text \<open>What the next run reads as \<open>user.lastChecked[provider]\<close> and as
  \<open>user.lastFailureAlert[provider]\<close> for a chat id.\<close>

definition checkpoint :: "string \<Rightarrow> provider \<Rightarrow> world \<Rightarrow> int option" where
  "checkpoint c p w =
     (case getUserByChatId c w of None \<Rightarrow> None | Some u \<Rightarrow> of_provider p (lastChecked u))"

definition failure_alert_stamp :: "string \<Rightarrow> provider \<Rightarrow> world \<Rightarrow> int option" where
  "failure_alert_stamp c p w =
     (case getUserByChatId c w of None \<Rightarrow> None | Some u \<Rightarrow> of_provider p (lastFailureAlert u))"

text \<open>The notifications of a message delivered to a chat, and the Email documents of
  the message that belong to the chat.\<close>

fun delivered :: "string \<Rightarrow> provider \<Rightarrow> string \<Rightarrow> bot_call \<Rightarrow> bool" where
  "delivered c p mid (SendEmailNotification c' e cl outcome) =
     (c' = c \<and> provider e = p \<and> messageId e = mid \<and> outcome = Inr True)"
| "delivered c p mid (SendFailureAlert c' p' msg outcome) = False"

definition notifications_delivered :: "string \<Rightarrow> provider \<Rightarrow> string \<Rightarrow> world \<Rightarrow> nat" where
  "notifications_delivered c p mid w = length (filter (delivered c p mid) (bot_calls w))"

definition notification_records :: "string \<Rightarrow> provider \<Rightarrow> string \<Rightarrow> world \<Rightarrow> nat" where
  "notification_records c p mid w =
     length (filter (\<lambda>d. email_doc.telegramChatId d = c \<and> provider (message d) = p
                          \<and> messageId (message d) = mid) (emails w))"

section \<open>Example inputs\<close>

text \<open>A message whose only keyword is \<open>interview\<close>, from a trusted sender.\<close>

definition example_interview :: email where
  "example_interview =
     \<lparr>provider = Gmail, messageId = ''m1'', threadId = None, subject = ''Interview'',
      from_addr = ''hr@acme.com'', to_addr = ''student@example.com'', date = 0,
      snippet = [], body = [], webLink = [], isSpam = False\<rparr>"

text \<open>A classifier environment without AI backend.\<close>

definition no_ai :: ai_env where
  "no_ai = \<lparr>GEMINI_API_KEY = False, post = Inl ''offline'', JSON_parse = (\<lambda>s. None),
            stack = 1000\<rparr>"

text \<open>A message from a trusted sender with no keyword in it.\<close>

definition example_trusted :: email where
  "example_trusted =
     \<lparr>provider = Gmail, messageId = ''m2'', threadId = None, subject = ''Hello'',
      from_addr = ''hr@acme.com'', to_addr = ''student@example.com'', date = 0,
      snippet = [], body = [], webLink = [], isSpam = False\<rparr>"

text \<open>The worked example of the specification; the dash of the subject is U+2014, three
  bytes in UTF-8. The snippet is empty and the body is one sentence holding the two
  phrases.\<close>

definition worked_example :: email where
  "worked_example =
     \<lparr>provider = Gmail, messageId = ''m3'', threadId = None,
      subject = ''Interview Schedule '' @ [CHR 0xE2, CHR 0x80, CHR 0x94] @ '' Round 2'',
      from_addr = ''hr@acme-corp.com'', to_addr = ''student@example.com'', date = 0,
      snippet = [],
      body = ''Your technical interview will be a zoom interview.'',
      webLink = [], isSpam = False\<rparr>"

text \<open>A message that level 1 alone classifies as important: score 8.\<close>

definition example_important :: email where
  "example_important =
     \<lparr>provider = Gmail, messageId = ''m1'', threadId = None, subject = ''Interview schedule'',
      from_addr = ''hr@acme.com'', to_addr = ''student@example.com'', date = 0,
      snippet = [], body = [], webLink = [], isSpam = False\<rparr>"

text \<open>Users with Gmail connected; the third has paused the notifications.\<close>

definition example_user :: "string \<Rightarrow> bool \<Rightarrow> user" where
  "example_user c n =
     \<lparr>uid = c, telegramChatId = c, firstName = ''User'',
      providers =
        \<lparr>gmail = \<lparr>enabled = True, refreshToken = Some ''token'', lastError = None,
                   lastErrorAt = None\<rparr>,
         outlook = \<lparr>enabled = False, refreshToken = None, lastError = None,
                     lastErrorAt = None\<rparr>\<rparr>,
      settings = \<lparr>notificationsEnabled = n, categories = []\<rparr>,
      lastChecked = \<lparr>gmail = None, outlook = None\<rparr>,
      lastFailureAlert = \<lparr>gmail = None, outlook = None\<rparr>,
      isActive = True\<rparr>"

definition user_a :: user where "user_a = example_user ''1001'' True"
definition user_b :: user where "user_b = example_user ''1002'' True"
definition user_paused :: user where "user_paused = example_user ''1003'' False"

definition example_world :: world where
  "example_world = \<lparr>users = [user_a, user_b, user_paused], emails = [], bot_calls = []\<rparr>"

text \<open>A sweep in which the adapter returns the important message and every delivery
  succeeds, and one in which the adapter raises.\<close>

definition sweep_ok :: provider_env where
  "sweep_ok =
     \<lparr>now_since = 1000000, fetchEmails = (\<lambda>token since. Inr [example_important]),
      ai = (\<lambda>e. no_ai), sendEmailNotification = (\<lambda>e. Inr True),
      now_saved = (\<lambda>e. 1000100), now_checked = 1000200, now_error = 1000300,
      now_alert_check = 1000400, sendFailureAlert = Inr True, now_alert = 1000500\<rparr>"

definition sweep_failing :: provider_env where
  "sweep_failing = sweep_ok\<lparr>fetchEmails := (\<lambda>token since. Inl ''invalid_grant'')\<rparr>"

definition run_ok :: run_env where
  "run_ok = \<lparr>ensureInitialized = None, sweep = (\<lambda>c p. sweep_ok)\<rparr>"

text \<open>A sweep in which the bot reports that the notification was not delivered.\<close>

definition sweep_undelivered :: provider_env where
  "sweep_undelivered = sweep_ok\<lparr>sendEmailNotification := (\<lambda>e. Inr False)\<rparr>"

text \<open>Three provider sweeps in a row, each fetching the message with Gmail id \<open>m1\<close>: one for
  the first user, two for the second.\<close>

definition after_a :: world where
  "after_a = snd (processProvider sweep_ok user_a Gmail example_world)"

definition after_b1 :: world where
  "after_b1 = snd (processProvider sweep_ok user_b Gmail after_a)"

definition after_b2 :: world where
  "after_b2 = snd (processProvider sweep_ok user_b Gmail after_b1)"

text \<open>An AI backend that answers with the JSON text \<open>42\<close>. Of \<open>JSON.parse\<close> only its
  value on that text is used: the number 42.\<close>

definition ai_number :: ai_env where
  "ai_number =
     \<lparr>GEMINI_API_KEY = True, post = Inr (Some ''42''),
      JSON_parse = (\<lambda>s. if s = ''42'' then Some (JNum 42) else None), stack = 1000\<rparr>"

text \<open>A second important message with the Gmail id \<open>m1\<close>, in the mailbox of the second
  user, and the loop body run on it for the second user after the sweep of the first.\<close>

definition second_message :: email where
  "second_message =
     \<lparr>provider = Gmail, messageId = ''m1'', threadId = None,
      subject = ''Interview schedule update'', from_addr = ''careers@example.org'',
      to_addr = ''other@example.com'', date = 0,
      snippet = [], body = [], webLink = [], isSpam = False\<rparr>"

definition step_b :: "counts \<times> world" where
  "step_b =
     processProvider_step sweep_ok user_b Gmail second_message
       (\<lparr>emailsScanned = 1, importantFound = 0, notificationsSent = 0\<rparr>, after_a)"

section \<open>Properties of the keyword classifier\<close>

text \<open>What the loops compute: each tier loop adds its points once for every keyword of
  the tier that occurs in the text, the negative loop adds 2 for every negative keyword
  that occurs, the sender loop gives 3 exactly when some pattern matches.\<close>


lemma tier_loop_score:
  "fst (tier_loop text pts kws (s, m)) = s + pts * int (length (filter (str_includes text) kws))"
  by (induction kws arbitrary: s m) (simp_all add: algebra_simps)

lemma negative_loop_eq:
  "negative_loop text kws n = n + 2 * int (length (filter (str_includes text) kws))"
  by (induction kws arbitrary: n) simp_all

lemma sender_loop_eq:
  "sender_loop s ps = (if \<exists>p\<in>set ps. regex_test p s then 3 else 0)"
  by (induction ps) simp_all

lemma score_category_fst:
  "fst (score_category text b n kws) =
     max 0 (3 * int (length (filter (str_includes text) (high kws)))
          + 2 * int (length (filter (str_includes text) (medium kws)))
          + int (length (filter (str_includes text) (low kws))) + b - n)"
proof -
  obtain s1 m1 where h: "tier_loop text 3 (high kws) (0, []) = (s1, m1)" by force
  obtain s2 m2 where m: "tier_loop text 2 (medium kws) (s1, m1) = (s2, m2)" by force
  obtain s3 m3 where l: "tier_loop text 1 (low kws) (s2, m2) = (s3, m3)" by force
  from h have 1: "s1 = 3 * int (length (filter (str_includes text) (high kws)))"
    using tier_loop_score [of "text" 3 "high kws" 0 "[]"] by simp
  from m have 2: "s2 = s1 + 2 * int (length (filter (str_includes text) (medium kws)))"
    using tier_loop_score [of "text" 2 "medium kws" s1 m1] by simp
  from l have 3: "s3 = s2 + int (length (filter (str_includes text) (low kws)))"
    using tier_loop_score [of "text" 1 "low kws" s2 m2] by simp
  show ?thesis
    unfolding score_category_def h m l by (simp add: 1 2 3)
qed

lemma score_category_nonneg: "0 \<le> fst (score_category text b n kws)"
  by (simp add: score_category_fst)

text \<open>
  The invariant of the category loop, started with maximum \<open>ms\<close> and category \<open>mc\<close>:
  the final maximum bounds every score and the initial maximum; either no score
  exceeded the initial maximum and the state is the initial one, or the final category
  is the first entry that reaches the final maximum, which exceeds the initial one.
\<close>

lemma category_loop_result:
  assumes "category_loop text b n es (acc, mc, ms) = (acc', mc', ms')"
  shows "(\<forall>i<length es. fst (score_category text b n (snd (es ! i))) \<le> ms') \<and> ms \<le> ms'
       \<and> (((\<forall>i<length es. fst (score_category text b n (snd (es ! i))) \<le> ms) \<and> mc' = mc \<and> ms' = ms)
          \<or> (\<exists>i<length es. mc' = fst (es ! i) \<and> ms' = fst (score_category text b n (snd (es ! i)))
                \<and> ms < ms'
                \<and> (\<forall>j<i. fst (score_category text b n (snd (es ! j))) < ms')))
       \<and> acc' = acc @ map (\<lambda>(c, k). (c, score_category text b n k)) es"
  using assms
proof (induction es arbitrary: acc mc ms)
  case Nil
  then show ?case by simp
next
  case (Cons x es)
  obtain c k where x: "x = (c, k)" by force
  obtain s m where sk: "score_category text b n k = (s, m)" by force
  let ?sc = "\<lambda>k. fst (score_category text b n k)"
  show ?case
  proof (cases "s > ms")
    case True
    with Cons.prems x sk
    have "category_loop text b n es (acc @ [(c, s, m)], c, s) = (acc', mc', ms')" by simp
    from Cons.IH [OF this]
    have ub: "\<forall>i<length es. ?sc (snd (es ! i)) \<le> ms'" and le: "s \<le> ms'"
      and dj: "((\<forall>i<length es. ?sc (snd (es ! i)) \<le> s) \<and> mc' = c \<and> ms' = s)
          \<or> (\<exists>i<length es. mc' = fst (es ! i) \<and> ms' = ?sc (snd (es ! i)) \<and> s < ms'
                \<and> (\<forall>j<i. ?sc (snd (es ! j)) < ms'))"
      and ac: "acc' = (acc @ [(c, s, m)]) @ map (\<lambda>(c, k). (c, score_category text b n k)) es"
      by blast+
    have A: "\<forall>i<length (x # es). ?sc (snd ((x # es) ! i)) \<le> ms'"
      using ub le x sk by (auto simp: nth_Cons split: nat.splits)
    have B: "ms \<le> ms'" using True le by simp
    have C: "\<exists>i<length (x # es). mc' = fst ((x # es) ! i) \<and> ms' = ?sc (snd ((x # es) ! i))
                \<and> ms < ms' \<and> (\<forall>j<i. ?sc (snd ((x # es) ! j)) < ms')"
      using dj
    proof
      assume "(\<forall>i<length es. ?sc (snd (es ! i)) \<le> s) \<and> mc' = c \<and> ms' = s"
      then show ?thesis using x sk True by (intro exI [of _ 0]) simp
    next
      assume "\<exists>i<length es. mc' = fst (es ! i) \<and> ms' = ?sc (snd (es ! i)) \<and> s < ms'
                \<and> (\<forall>j<i. ?sc (snd (es ! j)) < ms')"
      then obtain i where i: "i < length es" "mc' = fst (es ! i)" "ms' = ?sc (snd (es ! i))"
        "s < ms'" "\<forall>j<i. ?sc (snd (es ! j)) < ms'" by blast
      show ?thesis
        using i x sk True by (intro exI [of _ "Suc i"]) (auto simp: nth_Cons split: nat.splits)
    qed
    have D: "acc' = acc @ map (\<lambda>(c, k). (c, score_category text b n k)) (x # es)"
      using ac x sk by simp
    from A B C D show ?thesis by blast
  next
    case False
    with Cons.prems x sk
    have "category_loop text b n es (acc @ [(c, s, m)], mc, ms) = (acc', mc', ms')" by simp
    from Cons.IH [OF this]
    have ub: "\<forall>i<length es. ?sc (snd (es ! i)) \<le> ms'" and le: "ms \<le> ms'"
      and dj: "((\<forall>i<length es. ?sc (snd (es ! i)) \<le> ms) \<and> mc' = mc \<and> ms' = ms)
          \<or> (\<exists>i<length es. mc' = fst (es ! i) \<and> ms' = ?sc (snd (es ! i)) \<and> ms < ms'
                \<and> (\<forall>j<i. ?sc (snd (es ! j)) < ms'))"
      and ac: "acc' = (acc @ [(c, s, m)]) @ map (\<lambda>(c, k). (c, score_category text b n k)) es"
      by blast+
    have s_le: "s \<le> ms" using False by simp
    have A: "\<forall>i<length (x # es). ?sc (snd ((x # es) ! i)) \<le> ms'"
      using ub le s_le x sk by (auto simp: nth_Cons split: nat.splits)
    have C: "((\<forall>i<length (x # es). ?sc (snd ((x # es) ! i)) \<le> ms) \<and> mc' = mc \<and> ms' = ms)
          \<or> (\<exists>i<length (x # es). mc' = fst ((x # es) ! i) \<and> ms' = ?sc (snd ((x # es) ! i))
                \<and> ms < ms' \<and> (\<forall>j<i. ?sc (snd ((x # es) ! j)) < ms'))"
      using dj
    proof
      assume "(\<forall>i<length es. ?sc (snd (es ! i)) \<le> ms) \<and> mc' = mc \<and> ms' = ms"
      then have "(\<forall>i<length (x # es). ?sc (snd ((x # es) ! i)) \<le> ms) \<and> mc' = mc \<and> ms' = ms"
        using s_le x sk by (auto simp: nth_Cons split: nat.splits)
      then show ?thesis by blast
    next
      assume "\<exists>i<length es. mc' = fst (es ! i) \<and> ms' = ?sc (snd (es ! i)) \<and> ms < ms'
                \<and> (\<forall>j<i. ?sc (snd (es ! j)) < ms')"
      then obtain i where i: "i < length es" "mc' = fst (es ! i)" "ms' = ?sc (snd (es ! i))"
        "ms < ms'" "\<forall>j<i. ?sc (snd (es ! j)) < ms'" by blast
      have "\<exists>i<length (x # es). mc' = fst ((x # es) ! i) \<and> ms' = ?sc (snd ((x # es) ! i))
                \<and> ms < ms' \<and> (\<forall>j<i. ?sc (snd ((x # es) ! j)) < ms')"
        using i x sk s_le by (intro exI [of _ "Suc i"]) (auto simp: nth_Cons split: nat.splits)
      then show ?thesis by blast
    qed
    have D: "acc' = acc @ map (\<lambda>(c, k). (c, score_category text b n k)) (x # es)"
      using ac x sk by simp
    from A le C D show ?thesis by blast
  qed
qed


lemma category_score_spec: "category_score e kws = spec_category_score e kws"
  by (simp add: category_score_def spec_category_score_def hits_def score_category_fst
      negative_loop_eq sender_loop_eq list_ex_iff)

lemma keywordClassify_loop:
  obtains acc where
    "category_loop (scan_text e) (sender_loop (toLowerCase (from_addr e)) TRUSTED_SENDER_PATTERNS)
       (negative_loop (scan_text e) NEGATIVE_KEYWORDS 0) KEYWORD_SCORES ([], CATEGORIES_OTHER, 0)
     = (acc, category (keywordClassify e), score (keywordClassify e))"
proof -
  obtain acc mc ms where
    "category_loop (scan_text e) (sender_loop (toLowerCase (from_addr e)) TRUSTED_SENDER_PATTERNS)
       (negative_loop (scan_text e) NEGATIVE_KEYWORDS 0) KEYWORD_SCORES ([], CATEGORIES_OTHER, 0)
     = (acc, mc, ms)"
    using prod_cases3 by blast
  then show ?thesis
    using that by (simp add: keywordClassify_def Let_def)
qed

lemma keywordClassify_important:
  "important (keywordClassify e)
     = (category (keywordClassify e) \<noteq> CATEGORIES_OTHER \<and> 2 \<le> score (keywordClassify e))"
  by (simp add: keywordClassify_def Let_def split: prod.splits)

lemma keywordClassify_winner:
  "(\<forall>i<length KEYWORD_SCORES. category_score e (snd (KEYWORD_SCORES ! i)) \<le> score (keywordClassify e))
   \<and> (((\<forall>i<length KEYWORD_SCORES. category_score e (snd (KEYWORD_SCORES ! i)) \<le> 0)
         \<and> category (keywordClassify e) = CATEGORIES_OTHER \<and> score (keywordClassify e) = 0)
       \<or> (\<exists>i<length KEYWORD_SCORES.
             category (keywordClassify e) = fst (KEYWORD_SCORES ! i)
           \<and> score (keywordClassify e) = category_score e (snd (KEYWORD_SCORES ! i))
           \<and> 0 < score (keywordClassify e)
           \<and> (\<forall>j<i. category_score e (snd (KEYWORD_SCORES ! j)) < score (keywordClassify e))))"
proof -
  obtain acc where
    "category_loop (scan_text e) (sender_loop (toLowerCase (from_addr e)) TRUSTED_SENDER_PATTERNS)
       (negative_loop (scan_text e) NEGATIVE_KEYWORDS 0) KEYWORD_SCORES ([], CATEGORIES_OTHER, 0)
     = (acc, category (keywordClassify e), score (keywordClassify e))"
    by (rule keywordClassify_loop)
  from category_loop_result [OF this] show ?thesis
    unfolding category_score_def by blast
qed

lemma classifyEmail_keyword_confidence:
  assumes "map_of (classifyEmail env e) ''method'' = Some (JStr ''keyword'')
         \<or> map_of (classifyEmail env e) ''method'' = Some (JStr ''keyword_fallback'')"
  shows "map_of (classifyEmail env e) ''confidence''
           = Some (JNum (min (real_of_int (score (keywordClassify e)) / 10) 1))"
proof -
  have ai: "map_of (AList.update ''method'' (JStr ''ai'') ps) ''method'' = Some (JStr ''ai'')" for ps
    by (simp add: update_conv')
  show ?thesis
    using assms
    by (auto simp: classifyEmail_def Let_def keyword_classification_def ai
             split: if_splits sum.splits)
qed

text \<open>
  Claim C5. \<open>keywordClassify\<close> scores the four categories in the order
  PLACEMENT_DRIVE, INTERVIEW, ASSESSMENT, SHORTLISTED, each score being the tier points
  plus the sender bonus minus the negative penalty, floored at 0. No score exceeds the
  winning score; when no category scores above 0 the result is OTHER with score 0;
  otherwise the winner is the first category in that order whose score is the highest
  (every category before it scores strictly less). \<open>important\<close> holds exactly when the
  category is not OTHER and the winning score is at least 2, and on the keyword paths of
  \<open>classifyEmail\<close> the confidence is \<open>min (score / 10) 1\<close>.
\<close>

theorem keywordClassify_postcondition:
  "map fst KEYWORD_SCORES = [''PLACEMENT_DRIVE'', ''INTERVIEW'', ''ASSESSMENT'', ''SHORTLISTED'']
   \<and> (\<forall>i<length KEYWORD_SCORES.
         category_score e (snd (KEYWORD_SCORES ! i)) = spec_category_score e (snd (KEYWORD_SCORES ! i))
       \<and> category_score e (snd (KEYWORD_SCORES ! i)) \<le> score (keywordClassify e))
   \<and> ((\<forall>i<length KEYWORD_SCORES. category_score e (snd (KEYWORD_SCORES ! i)) \<le> 0)
        \<longrightarrow> category (keywordClassify e) = ''OTHER'' \<and> score (keywordClassify e) = 0)
   \<and> ((\<exists>i<length KEYWORD_SCORES. 0 < category_score e (snd (KEYWORD_SCORES ! i)))
        \<longrightarrow> (\<exists>i<length KEYWORD_SCORES.
               category (keywordClassify e) = fst (KEYWORD_SCORES ! i)
             \<and> score (keywordClassify e) = category_score e (snd (KEYWORD_SCORES ! i))
             \<and> (\<forall>j<i. category_score e (snd (KEYWORD_SCORES ! j)) < score (keywordClassify e))))
   \<and> important (keywordClassify e)
        = (category (keywordClassify e) \<noteq> ''OTHER'' \<and> 2 \<le> score (keywordClassify e))
   \<and> (map_of (classifyEmail env e) ''method'' = Some (JStr ''keyword'')
        \<or> map_of (classifyEmail env e) ''method'' = Some (JStr ''keyword_fallback'')
        \<longrightarrow> map_of (classifyEmail env e) ''confidence''
              = Some (JNum (min (real_of_int (score (keywordClassify e)) / 10) 1)))"
proof -
  have order: "map fst KEYWORD_SCORES
      = [''PLACEMENT_DRIVE'', ''INTERVIEW'', ''ASSESSMENT'', ''SHORTLISTED'']"
    by (simp add: KEYWORD_SCORES_def)
  note w = keywordClassify_winner [of e]
  have le: "\<forall>i<length KEYWORD_SCORES.
         category_score e (snd (KEYWORD_SCORES ! i)) = spec_category_score e (snd (KEYWORD_SCORES ! i))
       \<and> category_score e (snd (KEYWORD_SCORES ! i)) \<le> score (keywordClassify e)"
    using w by (simp add: category_score_spec)
  have none: "(\<forall>i<length KEYWORD_SCORES. category_score e (snd (KEYWORD_SCORES ! i)) \<le> 0)
        \<longrightarrow> category (keywordClassify e) = ''OTHER'' \<and> score (keywordClassify e) = 0"
    using w unfolding CATEGORIES_OTHER_def by force
  have some: "(\<exists>i<length KEYWORD_SCORES. 0 < category_score e (snd (KEYWORD_SCORES ! i)))
        \<longrightarrow> (\<exists>i<length KEYWORD_SCORES.
               category (keywordClassify e) = fst (KEYWORD_SCORES ! i)
             \<and> score (keywordClassify e) = category_score e (snd (KEYWORD_SCORES ! i))
             \<and> (\<forall>j<i. category_score e (snd (KEYWORD_SCORES ! j)) < score (keywordClassify e)))"
    using w by (metis not_less)
  have imp: "important (keywordClassify e)
        = (category (keywordClassify e) \<noteq> ''OTHER'' \<and> 2 \<le> score (keywordClassify e))"
    using keywordClassify_important [of e] by (simp add: CATEGORIES_OTHER_def)
  have conf: "map_of (classifyEmail env e) ''method'' = Some (JStr ''keyword'')
        \<or> map_of (classifyEmail env e) ''method'' = Some (JStr ''keyword_fallback'')
        \<longrightarrow> map_of (classifyEmail env e) ''confidence''
              = Some (JNum (min (real_of_int (score (keywordClassify e)) / 10) 1))"
    using classifyEmail_keyword_confidence by blast
  from order le none some imp conf show ?thesis by blast
qed

theorem keywordClassify_postcondition_witness:
  "0 < category_score example_interview (snd (KEYWORD_SCORES ! 1))
   \<and> category (keywordClassify example_interview) = ''INTERVIEW''
   \<and> score (keywordClassify example_interview) = 5
   \<and> important (keywordClassify example_interview)
   \<and> map_of (classifyEmail no_ai example_interview) ''method'' = Some (JStr ''keyword_fallback'')
   \<and> map_of (classifyEmail no_ai example_interview) ''confidence'' = Some (JNum (1 / 2))"
proof -
  have len: "length KEYWORD_SCORES = 4" by (simp add: KEYWORD_SCORES_def)
  have c0: "category_score example_interview (snd (KEYWORD_SCORES ! 0)) = 3" by code_simp
  have c1: "category_score example_interview (snd (KEYWORD_SCORES ! 1)) = 5" by code_simp
  have c2: "category_score example_interview (snd (KEYWORD_SCORES ! 2)) = 3" by code_simp
  have c3: "category_score example_interview (snd (KEYWORD_SCORES ! 3)) = 3" by code_simp
  have f1: "fst (KEYWORD_SCORES ! 1) = ''INTERVIEW''" by (simp add: KEYWORD_SCORES_def)
  have m: "map_of (classifyEmail no_ai example_interview) ''method'' = Some (JStr ''keyword_fallback'')"
    by code_simp
  note T = keywordClassify_postcondition [of example_interview no_ai]
  have ex: "\<exists>i<length KEYWORD_SCORES. 0 < category_score example_interview (snd (KEYWORD_SCORES ! i))"
    using c1 len by (intro exI [of _ 1]) simp
  from T ex obtain i where i: "i < length KEYWORD_SCORES"
      "category (keywordClassify example_interview) = fst (KEYWORD_SCORES ! i)"
      "score (keywordClassify example_interview)
         = category_score example_interview (snd (KEYWORD_SCORES ! i))"
    by blast
  have "1 < length KEYWORD_SCORES" using len by simp
  with T have ub: "category_score example_interview (snd (KEYWORD_SCORES ! 1))
       \<le> score (keywordClassify example_interview)"
    by blast
  have "i = 0 \<or> i = 1 \<or> i = 2 \<or> i = 3" using i(1) len by auto
  then have i1: "i = 1" using i(3) ub c0 c1 c2 c3 by auto
  have cat: "category (keywordClassify example_interview) = ''INTERVIEW''"
    using i(2) i1 f1 by simp
  have sc: "score (keywordClassify example_interview) = 5" using i(3) i1 c1 by simp
  have imp: "important (keywordClassify example_interview)" using T cat sc by simp
  have conf: "map_of (classifyEmail no_ai example_interview) ''confidence'' = Some (JNum (1 / 2))"
    using T m sc by simp
  from c1 cat sc imp m conf show ?thesis by simp
qed

text \<open>The loops on a text that holds none of the keywords.\<close>

lemma tier_loop_no_match:
  "\<forall>kw\<in>set kws. \<not> str_includes text kw \<Longrightarrow> tier_loop text pts kws acc = acc"
  by (induction kws arbitrary: acc) (auto simp: split_paired_all)

lemma score_category_no_match:
  assumes "\<forall>kw\<in>set (high kws @ medium kws @ low kws). \<not> str_includes text kw"
  shows "score_category text b n kws = (max 0 (b - n), [])"
  using assms by (simp add: score_category_def tier_loop_no_match)

lemma category_loop_keep:
  assumes "\<forall>(c, k)\<in>set es. score_category text b n k = (s, [])" and "s \<le> ms"
  shows "category_loop text b n es (acc, mc, ms) = (acc @ map (\<lambda>(c, k). (c, s, [])) es, mc, ms)"
  using assms
proof (induction es arbitrary: acc)
  case Nil
  then show ?case by simp
next
  case (Cons x es)
  obtain c k where x: "x = (c, k)" by force
  from Cons.prems x have sk: "score_category text b n k = (s, [])" by simp
  from Cons.prems have rest: "\<forall>(c, k)\<in>set es. score_category text b n k = (s, [])" by simp
  show ?case
    using Cons.IH [OF rest Cons.prems(2), of "acc @ [(c, s, [])]"] Cons.prems(2)
    by (simp add: x sk)
qed

lemma category_loop_first:
  assumes "\<forall>(c, k)\<in>set ((c0, k0) # es). score_category text b n k = (s, [])" and "ms < s"
  shows "category_loop text b n ((c0, k0) # es) (acc, mc, ms)
           = (acc @ map (\<lambda>(c, k). (c, s, [])) ((c0, k0) # es), c0, s)"
  using assms category_loop_keep [of es "text" b n s s "acc @ [(c0, s, [])]" c0] by simp

text \<open>
  Claim C10. When the scan text holds no category keyword and no negative keyword and
  the lower-cased sender matches a trusted-sender pattern, every category scores 3 (the
  sender bonus alone), the winner is PLACEMENT_DRIVE, first in the order, with score 3,
  and the message is important: \<open>classifyEmail\<close> returns it as important with
  category PLACEMENT_DRIVE, not OTHER.
\<close>

theorem trusted_sender_without_keywords:
  assumes "\<forall>(c, kws)\<in>set KEYWORD_SCORES.
             \<forall>kw\<in>set (high kws @ medium kws @ low kws). \<not> str_includes (scan_text e) kw"
    and "\<forall>kw\<in>set NEGATIVE_KEYWORDS. \<not> str_includes (scan_text e) kw"
    and "\<exists>pattern\<in>set TRUSTED_SENDER_PATTERNS. regex_test pattern (toLowerCase (from_addr e))"
  shows "map (\<lambda>(c, s, m). (c, s)) (categoryScores (keywordClassify e))
           = [(''PLACEMENT_DRIVE'', 3), (''INTERVIEW'', 3), (''ASSESSMENT'', 3), (''SHORTLISTED'', 3)]
       \<and> category (keywordClassify e) = ''PLACEMENT_DRIVE''
       \<and> score (keywordClassify e) = 3
       \<and> important (keywordClassify e)
       \<and> map_of (classifyEmail env e) ''important'' = Some (JBool True)
       \<and> map_of (classifyEmail env e) ''category'' = Some (JStr ''PLACEMENT_DRIVE'')"
proof -
  have neg: "negative_loop (scan_text e) NEGATIVE_KEYWORDS 0 = 0"
    using assms(2) by (simp add: negative_loop_eq filter_empty_conv [THEN iffD2])
  have bonus: "sender_loop (toLowerCase (from_addr e)) TRUSTED_SENDER_PATTERNS = 3"
    using assms(3) by (simp add: sender_loop_eq)
  have all: "\<forall>(c, k)\<in>set KEYWORD_SCORES. score_category (scan_text e) 3 0 k = (3, [])"
    using assms(1) score_category_no_match [of _ "scan_text e" 3 0] by fastforce
  obtain c0 k0 es where ks: "KEYWORD_SCORES = (c0, k0) # es" and c0: "c0 = ''PLACEMENT_DRIVE''"
    and names: "map fst es = [''INTERVIEW'', ''ASSESSMENT'', ''SHORTLISTED'']"
    by (simp add: KEYWORD_SCORES_def)
  have loop: "category_loop (scan_text e) 3 0 KEYWORD_SCORES ([], CATEGORIES_OTHER, 0)
      = (map (\<lambda>(c, k). (c, 3, [])) KEYWORD_SCORES, ''PLACEMENT_DRIVE'', 3)"
    using category_loop_first [of c0 k0 es "scan_text e" 3 0 3 0 "[]" CATEGORIES_OTHER] all
    unfolding ks c0 by simp
  have scores: "map (\<lambda>(c, s, m). (c, s)) (map (\<lambda>(c, k). (c, 3::int, []::string list)) KEYWORD_SCORES)
      = [(''PLACEMENT_DRIVE'', 3), (''INTERVIEW'', 3), (''ASSESSMENT'', 3), (''SHORTLISTED'', 3)]"
    by (simp add: KEYWORD_SCORES_def)
  have k: "map (\<lambda>(c, s, m). (c, s)) (categoryScores (keywordClassify e))
           = [(''PLACEMENT_DRIVE'', 3), (''INTERVIEW'', 3), (''ASSESSMENT'', 3), (''SHORTLISTED'', 3)]
       \<and> category (keywordClassify e) = ''PLACEMENT_DRIVE''
       \<and> score (keywordClassify e) = 3
       \<and> important (keywordClassify e)"
    unfolding keywordClassify_def neg bonus Let_def loop
    using scores by (simp add: CATEGORIES_OTHER_def)
  then have "classifyEmail env e = keyword_classification (keywordClassify e) ''keyword''"
    by (simp add: classifyEmail_def Let_def AI_THRESHOLD_LOW_def)
  with k show ?thesis by (simp add: keyword_classification_def)
qed

theorem trusted_sender_without_keywords_witness:
  "category (keywordClassify example_trusted) = ''PLACEMENT_DRIVE''
   \<and> score (keywordClassify example_trusted) = 3
   \<and> important (keywordClassify example_trusted)
   \<and> map_of (classifyEmail no_ai example_trusted) ''important'' = Some (JBool True)"
proof -
  have h1: "\<forall>(c, kws)\<in>set KEYWORD_SCORES.
             \<forall>kw\<in>set (high kws @ medium kws @ low kws).
               \<not> str_includes (scan_text example_trusted) kw"
    by code_simp
  have h2: "\<forall>kw\<in>set NEGATIVE_KEYWORDS. \<not> str_includes (scan_text example_trusted) kw"
    by code_simp
  have h3: "\<exists>pattern\<in>set TRUSTED_SENDER_PATTERNS.
              regex_test pattern (toLowerCase (from_addr example_trusted))"
    by code_simp
  from trusted_sender_without_keywords [OF h1 h2 h3, of no_ai] show ?thesis by simp
qed

text \<open>The level-1 result on the worked example.\<close>

lemma worked_example_keywordClassify:
  "keywordClassify worked_example =
     \<lparr>important = True, category = ''INTERVIEW'', score = 14,
      reason = ''Matched keywords: interview schedule, technical interview, zoom interview'',
      categoryScores =
        [(''PLACEMENT_DRIVE'', 3, []),
         (''INTERVIEW'', 14,
          [''interview schedule'', ''technical interview'', ''zoom interview'', ''interview'']),
         (''ASSESSMENT'', 3, []), (''SHORTLISTED'', 3, [])]\<rparr>"
  by code_simp

text \<open>
  Claim C6, as stated: on the worked example the score is 9 and the confidence 0.9. It
  fails: the score is not 9 and the confidence is not 0.9.
\<close>

theorem worked_example_score_not_9:
  "score (keywordClassify worked_example) \<noteq> 9
   \<and> map_of (classifyEmail no_ai worked_example) ''confidence'' \<noteq> Some (JNum (9 / 10))"
  by (simp add: worked_example_keywordClassify classifyEmail_def keyword_classification_def
      AI_THRESHOLD_HIGH_def)

text \<open>
  Claim C6, amended. On the worked example (subject "Interview Schedule - Round 2",
  sender hr@acme-corp.com, body with "technical interview" and "zoom interview") the
  level-1 score is 14: 3 points each for the high-tier INTERVIEW keywords "interview
  schedule" (found in the lower-cased subject), "technical interview" and "zoom
  interview", 2 for the medium-tier keyword "interview", and the sender bonus of 3. The
  classifier returns important = true, category = INTERVIEW, method = "keyword" and
  confidence = min (14 / 10) 1 = 1.
\<close>

theorem worked_example_classification:
  "score (keywordClassify worked_example) = 14
   \<and> classifyEmail env worked_example =
       [(''important'', JBool True), (''category'', JStr ''INTERVIEW''),
        (''confidence'', JNum 1),
        (''reason'',
         JStr ''Matched keywords: interview schedule, technical interview, zoom interview''),
        (''method'', JStr ''keyword'')]"
  by (simp add: worked_example_keywordClassify classifyEmail_def keyword_classification_def
      AI_THRESHOLD_HIGH_def)

section \<open>Properties of the AI response handling\<close>

lemma map_of_update:
  "map_of (AList.update k v ps) k' = (if k' = k then Some v else map_of ps k')"
  by (simp add: update_conv')

text \<open>
  With a frame left on the stack \<open>parseAIResponse\<close> returns a value, whatever the text
  is. A text that is not JSON and holds no brace pair gives the fixed result; a text that
  is not JSON but whose brace-delimited substring parses gives the validated substring.
\<close>

lemma parseAIResponse_returns:
  "\<exists>v. parseAIResponse (Suc n) parse responseText = Inr v"
  by (simp split: sum.splits option.splits)

lemma parseAIResponse_unparseable:
  assumes "parse responseText = None" and "json_match responseText = None"
  shows "parseAIResponse (Suc n) parse responseText = Inr unparseable"
  using assms by simp

lemma parseAIResponse_extracted:
  assumes "parse responseText = None" and "json_match responseText = Some m"
    and "parse m = Some v" and "validate v = Inr r"
  shows "parseAIResponse (Suc (Suc n)) parse responseText = Inr r"
  using assms by simp

text \<open>On a JSON object the validation leaves the four properties with values of the
  schema.\<close>

lemma validate_object:
  "\<exists>ps'. validate (JObject ps) = Inr (JObject ps')
     \<and> (\<exists>b. map_of ps' ''important'' = Some (JBool b))
     \<and> (\<exists>c\<in>set CATEGORIES_values. map_of ps' ''category'' = Some (JStr c))
     \<and> (\<exists>x. map_of ps' ''confidence'' = Some (JNum x) \<and> 0 \<le> x \<and> x \<le> 1)
     \<and> (\<exists>r. map_of ps' ''reason'' = Some (JStr r))"
proof -
  define r1 where "r1 = (case get_prop (JObject ps) ''important'' of
                        Some (JBool b) \<Rightarrow> JObject ps
                      | _ \<Rightarrow> set_prop (JObject ps) ''important'' (JBool False))"
  define r2 where "r2 = (case get_prop r1 ''category'' of
                        Some (JStr c) \<Rightarrow>
                          if c \<in> set CATEGORIES_values then r1
                          else set_prop r1 ''category'' (JStr CATEGORIES_OTHER)
                      | _ \<Rightarrow> set_prop r1 ''category'' (JStr CATEGORIES_OTHER))"
  define r3 where "r3 = (case get_prop r2 ''confidence'' of
                        Some (JNum x) \<Rightarrow>
                          if x < 0 \<or> x > 1 then set_prop r2 ''confidence'' (JNum (1/2))
                          else r2
                      | _ \<Rightarrow> set_prop r2 ''confidence'' (JNum (1/2)))"
  define r4 where "r4 = (case get_prop r3 ''reason'' of
                        Some (JStr r) \<Rightarrow> r3
                      | _ \<Rightarrow> set_prop r3 ''reason'' (JStr ''AI classification''))"
  have v: "validate (JObject ps) = Inr r4"
    by (simp only: validate_def Let_def r1_def r2_def r3_def r4_def jsval.distinct if_False)
  have "\<exists>p1. r1 = JObject p1 \<and> (\<exists>b. map_of p1 ''important'' = Some (JBool b))"
    unfolding r1_def by (auto simp: map_of_update split: option.splits jsval.splits)
  then obtain p1 where p1: "r1 = JObject p1" "\<exists>b. map_of p1 ''important'' = Some (JBool b)"
    by blast
  have "\<exists>p2. r2 = JObject p2 \<and> map_of p2 ''important'' = map_of p1 ''important''
      \<and> (\<exists>c\<in>set CATEGORIES_values. map_of p2 ''category'' = Some (JStr c))"
    unfolding r2_def p1(1)
    by (auto simp: map_of_update CATEGORIES_values_def split: option.splits jsval.splits)
  then obtain p2 where p2: "r2 = JObject p2" "map_of p2 ''important'' = map_of p1 ''important''"
      "\<exists>c\<in>set CATEGORIES_values. map_of p2 ''category'' = Some (JStr c)"
    by blast
  have half: "\<exists>x::real. x * 2 = 1 \<and> 0 \<le> x \<and> x \<le> 1"
    by (rule exI [of _ "1 / 2"]) simp
  have "\<exists>p3. r3 = JObject p3 \<and> map_of p3 ''important'' = map_of p2 ''important''
      \<and> map_of p3 ''category'' = map_of p2 ''category''
      \<and> (\<exists>x. map_of p3 ''confidence'' = Some (JNum x) \<and> 0 \<le> x \<and> x \<le> 1)"
    unfolding r3_def p2(1)
    by (auto simp: map_of_update half split: option.splits jsval.splits)
  then obtain p3 where p3: "r3 = JObject p3" "map_of p3 ''important'' = map_of p2 ''important''"
      "map_of p3 ''category'' = map_of p2 ''category''"
      "\<exists>x. map_of p3 ''confidence'' = Some (JNum x) \<and> 0 \<le> x \<and> x \<le> 1"
    by blast
  have "\<exists>p4. r4 = JObject p4 \<and> map_of p4 ''important'' = map_of p3 ''important''
      \<and> map_of p4 ''category'' = map_of p3 ''category''
      \<and> map_of p4 ''confidence'' = map_of p3 ''confidence''
      \<and> (\<exists>r. map_of p4 ''reason'' = Some (JStr r))"
    unfolding r4_def p3(1)
    by (auto simp: map_of_update split: option.splits jsval.splits)
  then obtain p4 where p4: "r4 = JObject p4" "map_of p4 ''important'' = map_of p3 ''important''"
      "map_of p4 ''category'' = map_of p3 ''category''"
      "map_of p4 ''confidence'' = map_of p3 ''confidence''"
      "\<exists>r. map_of p4 ''reason'' = Some (JStr r)"
    by blast
  show ?thesis
    using v p1 p2 p3 p4 by (intro exI [of _ p4]) simp
qed

text \<open>An error of level 2, or no API key, gives the level-1 result.\<close>

lemma classifyEmail_ai_failure:
  assumes "AI_THRESHOLD_LOW < score (keywordClassify e)"
    and "score (keywordClassify e) < AI_THRESHOLD_HIGH"
    and "\<not> GEMINI_API_KEY env \<or> aiClassify env = Inl error"
  shows "classifyEmail env e = keyword_classification (keywordClassify e) ''keyword_fallback''"
  using assms by (auto simp: classifyEmail_def Let_def)

text \<open>
  Claim C7 says that every response text yields a fully populated result. The code
  misses the JSON texts that are a number: \<open>JSON.parse\<close> returns the number, the four
  assignments to its properties do nothing, and \<open>parseAIResponse\<close> returns the number
  itself. \<open>classifyEmail\<close> then returns an object whose only property is \<open>method\<close>:
  \<open>important\<close>, \<open>category\<close> and \<open>confidence\<close> are absent.
\<close>

theorem parseAIResponse_number:
  assumes "JSON_parse env responseText = Some (JNum x)"
    and "GEMINI_API_KEY env" and "post env = Inr (Some responseText)" and "responseText \<noteq> []"
    and "0 < stack env"
    and "AI_THRESHOLD_LOW < score (keywordClassify e)"
    and "score (keywordClassify e) < AI_THRESHOLD_HIGH"
  shows "parseAIResponse (stack env) (JSON_parse env) responseText = Inr (JNum x)
       \<and> classifyEmail env e = [(''method'', JStr ''ai'')]
       \<and> map_of (classifyEmail env e) ''important'' = None
       \<and> map_of (classifyEmail env e) ''category'' = None
       \<and> map_of (classifyEmail env e) ''confidence'' = None"
proof -
  from assms(5) obtain n where n: "stack env = Suc n" by (cases "stack env") auto
  have v: "validate (JNum x) = Inr (JNum x)"
    by (simp add: validate_def)
  have p: "parseAIResponse (stack env) (JSON_parse env) responseText = Inr (JNum x)"
    by (simp add: n assms(1) v)
  have a: "aiClassify env = Inr (JNum x)"
    using assms(2,3,4) p by (simp add: aiClassify_def)
  have c: "classifyEmail env e = [(''method'', JStr ''ai'')]"
    using assms(2,6,7) a by (simp add: classifyEmail_def Let_def)
  from p c show ?thesis by simp
qed

theorem parseAIResponse_number_witness:
  "parseAIResponse 1000 (JSON_parse ai_number) ''42'' = Inr (JNum 42)
   \<and> classifyEmail ai_number example_interview = [(''method'', JStr ''ai'')]"
proof -
  have s: "score (keywordClassify example_interview) = 5" by code_simp
  have h: "JSON_parse ai_number ''42'' = Some (JNum 42)" "GEMINI_API_KEY ai_number"
    "post ai_number = Inr (Some ''42'')" "''42'' \<noteq> []" "0 < stack ai_number"
    by (simp_all add: ai_number_def)
  have t: "AI_THRESHOLD_LOW < score (keywordClassify example_interview)"
    "score (keywordClassify example_interview) < AI_THRESHOLD_HIGH"
    by (simp_all add: s AI_THRESHOLD_LOW_def AI_THRESHOLD_HIGH_def)
  have st: "stack ai_number = 1000" by (simp add: ai_number_def)
  from parseAIResponse_number [OF h t] show ?thesis by (simp add: st)
qed

section \<open>Properties of the provider sweep\<close>

text \<open>
  Claim C3. With 30 minutes being 1800000 milliseconds, \<open>getSinceTimestamp\<close> returns the
  larger of the checkpoint and \<open>now - 30 minutes\<close> when the user has a checkpoint for
  the provider, and \<open>now - 30 minutes\<close> when there is none. The result is a function of
  the clock reading, the user and the provider, and it never precedes
  \<open>now - 30 minutes\<close>.
\<close>

theorem getSinceTimestamp_window:
  "getSinceTimestamp now u p =
     (case of_provider p (lastChecked u) of
        Some t \<Rightarrow> max t (now - 1800000)
      | None \<Rightarrow> now - 1800000)
   \<and> now - 1800000 \<le> getSinceTimestamp now u p"
  by (simp add: getSinceTimestamp_def DEFAULT_LOOKBACK_MINUTES_def split: option.splits)

text \<open>The storage operations on the users, and what the loop leaves untouched.\<close>

lemma of_provider_set_provider [simp]:
  "of_provider p (set_provider q v x) = (if p = q then v else of_provider p x)"
  by (cases p; cases q) (simp_all add: of_provider_def set_provider_def)

lemma find_User_updateOne:
  assumes "\<And>u. user.telegramChatId (f u) = user.telegramChatId u"
  shows "find (\<lambda>u. user.telegramChatId u = c') (User_updateOne c f us)
           = (if c' = c then map_option f (find (\<lambda>u. user.telegramChatId u = c) us)
              else find (\<lambda>u. user.telegramChatId u = c') us)"
  by (induction us) (auto simp: assms)

lemma getUserByChatId_updateLastChecked:
  "getUserByChatId c' (updateLastChecked t c p w)
     = (if c' = c
        then map_option (\<lambda>u. u\<lparr>lastChecked := set_provider p (Some t) (lastChecked u)\<rparr>)
               (getUserByChatId c w)
        else getUserByChatId c' w)"
  by (simp add: getUserByChatId_def updateLastChecked_def find_User_updateOne)

lemma getUserByChatId_recordProviderError:
  "getUserByChatId c' (recordProviderError t c p msg w)
     = (if c' = c
        then map_option (\<lambda>u. u\<lparr>providers := set_provider p
                   ((of_provider p (providers u))\<lparr>lastError := Some msg, lastErrorAt := Some t\<rparr>)
                   (providers u)\<rparr>)
               (getUserByChatId c w)
        else getUserByChatId c' w)"
  by (simp add: getUserByChatId_def recordProviderError_def find_User_updateOne)

lemma getUserByChatId_recordFailureAlert:
  "getUserByChatId c' (recordFailureAlert t c p w)
     = (if c' = c
        then map_option (\<lambda>u. u\<lparr>lastFailureAlert := set_provider p (Some t) (lastFailureAlert u)\<rparr>)
               (getUserByChatId c w)
        else getUserByChatId c' w)"
  by (simp add: getUserByChatId_def recordFailureAlert_def find_User_updateOne)

lemma getUserByChatId_bot_calls [simp]:
  "getUserByChatId c (w\<lparr>bot_calls := b\<rparr>) = getUserByChatId c w"
  by (simp add: getUserByChatId_def)

lemma users_saveEmail [simp]: "users (saveEmail t u e c w) = users w"
  by (simp add: saveEmail_def Let_def)

lemma bot_calls_saveEmail [simp]: "bot_calls (saveEmail t u e c w) = bot_calls w"
  by (simp add: saveEmail_def Let_def)

lemma users_step [simp]: "users (snd (processProvider_step env u p e st)) = users (snd st)"
  by (cases st) (simp add: processProvider_step_def Let_def split: sum.splits)

lemma emailsScanned_step [simp]:
  "emailsScanned (fst (processProvider_step env u p e st)) = emailsScanned (fst st)"
  by (cases st) (simp add: processProvider_step_def Let_def split: sum.splits)

lemma users_fold_step [simp]:
  "users (snd (fold (processProvider_step env u p) es st)) = users (snd st)"
  by (induction es arbitrary: st) simp_all

lemma emailsScanned_fold_step [simp]:
  "emailsScanned (fst (fold (processProvider_step env u p) es st)) = emailsScanned (fst st)"
  by (induction es arbitrary: st) simp_all

lemma getUserByChatId_fold_step [simp]:
  "getUserByChatId c (snd (fold (processProvider_step env u p) es st)) = getUserByChatId c (snd st)"
  by (simp add: getUserByChatId_def)

lemma processProvider_fetched:
  assumes "fetchEmails env (refreshToken (of_provider p (providers u)))
             (getSinceTimestamp (now_since env) u p) = Inr fetched"
  shows "processProvider env u p w =
           (Inr (fst (fold (processProvider_step env u p) fetched
                       (\<lparr>emailsScanned = length fetched, importantFound = 0,
                         notificationsSent = 0\<rparr>, w))),
            updateLastChecked (now_checked env) (user.telegramChatId u) p
              (snd (fold (processProvider_step env u p) fetched
                       (\<lparr>emailsScanned = length fetched, importantFound = 0,
                         notificationsSent = 0\<rparr>, w))))"
  using assms by (simp add: processProvider_def Let_def split: prod.splits)

lemma processProvider_failed:
  assumes "fetchEmails env (refreshToken (of_provider p (providers u)))
             (getSinceTimestamp (now_since env) u p) = Inl error"
  shows "processProvider env u p w = (Inl error, w)"
  using assms by (simp add: processProvider_def Let_def)

lemma checkpoint_handleProviderFailure:
  "checkpoint c q (handleProviderFailure env u p msg w) = checkpoint c q w"
  by (cases "getUserByChatId (user.telegramChatId u) w")
     (auto simp: checkpoint_def handleProviderFailure_def Let_def
        getUserByChatId_recordProviderError getUserByChatId_recordFailureAlert
        split: sum.splits option.splits)

text \<open>
  Claim C2. For a user stored in the collection, a provider sweep whose fetch returns
  yields a result (with every fetched message counted as scanned) and leaves the
  checkpoint of that user and provider at the clock reading of \<open>updateLastChecked\<close>,
  whatever happens to the single messages in the loop. A sweep whose fetch raises
  returns the error with the stored state untouched, and the failure handling that
  follows does not move the checkpoint.
\<close>

theorem checkpoint_advance:
  assumes "getUserByChatId (user.telegramChatId u) w \<noteq> None"
  shows "(case fetchEmails env (refreshToken (of_provider p (providers u)))
               (getSinceTimestamp (now_since env) u p) of
            Inr fetched \<Rightarrow>
              (\<exists>result. fst (processProvider env u p w) = Inr result
                        \<and> emailsScanned result = length fetched)
              \<and> checkpoint (user.telegramChatId u) p (snd (processProvider env u p w))
                  = Some (now_checked env)
          | Inl error \<Rightarrow>
              processProvider env u p w = (Inl error, w)
              \<and> checkpoint (user.telegramChatId u) p
                    (handleProviderFailure env u p error w)
                  = checkpoint (user.telegramChatId u) p w)"
proof (cases "fetchEmails env (refreshToken (of_provider p (providers u)))
               (getSinceTimestamp (now_since env) u p)")
  case (Inl error)
  then show ?thesis
    by (simp add: processProvider_failed checkpoint_handleProviderFailure)
next
  case (Inr fetched)
  from assms obtain u0 where u0: "getUserByChatId (user.telegramChatId u) w = Some u0" by blast
  show ?thesis
    by (simp add: Inr processProvider_fetched [OF Inr] checkpoint_def
        getUserByChatId_updateLastChecked u0)
qed

theorem checkpoint_advance_witness:
  "checkpoint ''1001'' Gmail (snd (processProvider sweep_ok user_a Gmail example_world))
     = Some 1000200
   \<and> processProvider sweep_failing user_a Gmail example_world
     = (Inl ''invalid_grant'', example_world)"
proof -
  have h: "getUserByChatId (user.telegramChatId user_a) example_world \<noteq> None"
    by (simp add: getUserByChatId_def example_world_def user_a_def example_user_def)
  have c: "user.telegramChatId user_a = ''1001''"
    by (simp add: user_a_def example_user_def)
  from checkpoint_advance [OF h, of sweep_ok Gmail]
       checkpoint_advance [OF h, of sweep_failing Gmail]
  show ?thesis
    by (simp add: sweep_ok_def sweep_failing_def c)
qed

lemma isEmailNotified_bot_calls [simp]:
  "isEmailNotified c p mid (w\<lparr>bot_calls := b\<rparr>) = isEmailNotified c p mid w"
  by (simp add: isEmailNotified_def)

lemma Email_findOneAndUpdate_result:
  "\<exists>d\<in>set (Email_findOneAndUpdate k f ins ds).
      (d = ins \<and> (\<forall>d0\<in>set ds. uniqueId d0 \<noteq> k))
    \<or> (\<exists>d0\<in>set ds. uniqueId d0 = k \<and> d = f d0)"
  by (induction ds) auto

lemma saveEmail_record:
  "\<exists>d\<in>set (emails (saveEmail t u e c w)).
      uniqueId d = provider_name (provider e) @ ''_'' @ messageId e
    \<and> notified d
    \<and> classification d = classification_fields c
    \<and> ((\<forall>d0\<in>set (emails w). uniqueId d0 \<noteq> uniqueId d)
         \<longrightarrow> message d = e \<and> email_doc.telegramChatId d = user.telegramChatId u)"
proof -
  let ?k = "provider_name (provider e) @ ''_'' @ messageId e"
  let ?f = "\<lambda>d. d\<lparr>classification := classification_fields c, notified := True,
                     notifiedAt := Some t\<rparr>"
  let ?ins = "\<lparr>userId = uid u, telegramChatId = user.telegramChatId u, uniqueId = ?k,
              message = e, classification = classification_fields c, notified = True,
              notifiedAt = Some t, createdAt = t\<rparr>"
  from Email_findOneAndUpdate_result [of ?k ?f ?ins "emails w"]
  obtain d where d: "d \<in> set (Email_findOneAndUpdate ?k ?f ?ins (emails w))"
    and dj: "(d = ?ins \<and> (\<forall>d0\<in>set (emails w). uniqueId d0 \<noteq> ?k))
           \<or> (\<exists>d0\<in>set (emails w). uniqueId d0 = ?k \<and> d = ?f d0)"
    by blast
  have m: "d \<in> set (emails (saveEmail t u e c w))"
    using d by (simp add: saveEmail_def Let_def)
  from dj have "uniqueId d = ?k \<and> notified d \<and> classification d = classification_fields c
    \<and> ((\<forall>d0\<in>set (emails w). uniqueId d0 \<noteq> uniqueId d)
         \<longrightarrow> message d = e \<and> email_doc.telegramChatId d = user.telegramChatId u)"
    by auto
  with m show ?thesis by blast
qed

text \<open>What \<open>saveEmail\<close> stores of a classification: its five properties, as they are.\<close>

lemma map_of_classification_fields:
  "map_of (classification_fields c) k
     = (if k \<in> {''important'', ''category'', ''confidence'', ''reason'', ''method''}
        then map_of c k else None)"
  by (auto simp: classification_fields_def split: option.splits)

lemma classification_fields_keyword:
  "classification_fields (keyword_classification r m) = keyword_classification r m"
  by (simp add: classification_fields_def keyword_classification_def)

text \<open>
  The loop body on a message that is not yet notified and that is classified important
  with its category enabled. It calls the bot once, and the Email collection afterwards
  is the one \<open>saveEmail\<close> produces exactly when the delivery call returned true;
  otherwise it is unchanged and the message is still not notified. \<open>saveEmail\<close> leaves
  a document with the unique id of the message that is marked notified and holds the
  classification; the message and the chat id are those of the call only when the
  document had to be inserted.
\<close>

lemma ledger_write_only_on_delivery:
  assumes "\<not> isEmailNotified (user.telegramChatId u) p (messageId e) w"
    and "truthy (map_of (classifyEmail (ai env e) e) ''important'')"
    and "categoryEnabled u (classifyEmail (ai env e) e)"
  shows "emails (snd (processProvider_step env u p e (r, w)))
           = (if sendEmailNotification env e = Inr True
              then emails (saveEmail (now_saved env e) u e (classifyEmail (ai env e) e) w)
              else emails w)
       \<and> bot_calls (snd (processProvider_step env u p e (r, w)))
           = bot_calls w @ [SendEmailNotification (user.telegramChatId u) e
                              (classifyEmail (ai env e) e) (sendEmailNotification env e)]
       \<and> (\<exists>d\<in>set (emails (saveEmail (now_saved env e) u e (classifyEmail (ai env e) e) w)).
             uniqueId d = provider_name (provider e) @ ''_'' @ messageId e
           \<and> notified d
           \<and> classification d = classification_fields (classifyEmail (ai env e) e)
           \<and> ((\<forall>d0\<in>set (emails w). uniqueId d0 \<noteq> uniqueId d)
                \<longrightarrow> message d = e \<and> email_doc.telegramChatId d = user.telegramChatId u))
       \<and> (sendEmailNotification env e \<noteq> Inr True \<longrightarrow>
             \<not> isEmailNotified (user.telegramChatId u) p (messageId e)
                 (snd (processProvider_step env u p e (r, w))))"
proof -
  have e1: "emails (snd (processProvider_step env u p e (r, w)))
           = (if sendEmailNotification env e = Inr True
              then emails (saveEmail (now_saved env e) u e (classifyEmail (ai env e) e) w)
              else emails w)"
    using assms
    by (auto simp: processProvider_step_def Let_def saveEmail_def split: sum.splits)
  have e2: "bot_calls (snd (processProvider_step env u p e (r, w)))
           = bot_calls w @ [SendEmailNotification (user.telegramChatId u) e
                              (classifyEmail (ai env e) e) (sendEmailNotification env e)]"
    using assms
    by (auto simp: processProvider_step_def Let_def split: sum.splits)
  have e3: "sendEmailNotification env e \<noteq> Inr True \<longrightarrow>
             \<not> isEmailNotified (user.telegramChatId u) p (messageId e)
                 (snd (processProvider_step env u p e (r, w)))"
    using assms(1) e1 by (simp add: isEmailNotified_def)
  from e1 e2 e3 saveEmail_record show ?thesis by blast
qed

lemma ledger_write_only_on_delivery_example:
  "emails (snd (processProvider_step sweep_ok user_a Gmail example_important
                  (\<lparr>emailsScanned = 1, importantFound = 0, notificationsSent = 0\<rparr>, example_world)))
     = emails (saveEmail 1000100 user_a example_important
                 (classifyEmail no_ai example_important) example_world)
   \<and> emails (snd (processProvider_step sweep_undelivered user_a Gmail example_important
                  (\<lparr>emailsScanned = 1, importantFound = 0, notificationsSent = 0\<rparr>, example_world)))
     = []
   \<and> \<not> isEmailNotified ''1001'' Gmail ''m1''
         (snd (processProvider_step sweep_undelivered user_a Gmail example_important
                  (\<lparr>emailsScanned = 1, importantFound = 0, notificationsSent = 0\<rparr>, example_world)))"
proof -
  have c: "user.telegramChatId user_a = ''1001''" by (simp add: user_a_def example_user_def)
  have m: "messageId example_important = ''m1''" by (simp add: example_important_def)
  have h1: "\<not> isEmailNotified (user.telegramChatId user_a) Gmail (messageId example_important)
               example_world"
    by (simp add: isEmailNotified_def example_world_def)
  have a1: "ai sweep_ok example_important = no_ai" by (simp add: sweep_ok_def)
  have a2: "ai sweep_undelivered example_important = no_ai"
    by (simp add: sweep_ok_def sweep_undelivered_def)
  have i: "map_of (classifyEmail no_ai example_important) ''important'' = Some (JBool True)"
    by code_simp
  have en: "categoryEnabled user_a (classifyEmail no_ai example_important)"
    by code_simp
  have h2: "truthy (map_of (classifyEmail (ai sweep_ok example_important) example_important)
                     ''important'')"
    by (simp add: a1 i)
  have h2': "truthy (map_of (classifyEmail (ai sweep_undelivered example_important)
                     example_important) ''important'')"
    by (simp add: a2 i)
  have h3: "categoryEnabled user_a (classifyEmail (ai sweep_ok example_important) example_important)"
    by (simp add: a1 en)
  have h3': "categoryEnabled user_a
               (classifyEmail (ai sweep_undelivered example_important) example_important)"
    by (simp add: a2 en)
  from ledger_write_only_on_delivery [OF h1 h2 h3,
         of "\<lparr>emailsScanned = 1, importantFound = 0, notificationsSent = 0\<rparr>"]
       ledger_write_only_on_delivery [OF h1 h2' h3',
         of "\<lparr>emailsScanned = 1, importantFound = 0, notificationsSent = 0\<rparr>"]
  show ?thesis
    by (simp add: c m a1 sweep_ok_def sweep_undelivered_def example_world_def)
qed

lemma bot_calls_recordProviderError [simp]:
  "bot_calls (recordProviderError t c p msg w) = bot_calls w"
  by (simp add: recordProviderError_def)

lemma bot_calls_recordFailureAlert [simp]:
  "bot_calls (recordFailureAlert t c p w) = bot_calls w"
  by (simp add: recordFailureAlert_def)

text \<open>
  Claim C8. For a user stored in the collection, the failure handling calls
  \<open>sendFailureAlert\<close> exactly when no alert is recorded for the user and provider or at
  least 2 hours (7200000 ms) lie between the recorded alert and the clock reading of the
  check. The recorded time becomes the clock reading of \<open>recordFailureAlert\<close> exactly
  when the alert was due and its delivery returned true, and stays as it was otherwise.
  Within 2 hours of a recorded alert no call to the bot is made.
\<close>

theorem failure_alert_cooldown:
  assumes "getUserByChatId (user.telegramChatId u) w \<noteq> None"
  shows "bot_calls (handleProviderFailure env u p msg w)
           = bot_calls w
             @ (if (case failure_alert_stamp (user.telegramChatId u) p w of
                      None \<Rightarrow> True
                    | Some t \<Rightarrow> 7200000 \<le> now_alert_check env - t)
                then [SendFailureAlert (user.telegramChatId u) p msg (sendFailureAlert env)]
                else [])
       \<and> failure_alert_stamp (user.telegramChatId u) p (handleProviderFailure env u p msg w)
           = (if (case failure_alert_stamp (user.telegramChatId u) p w of
                    None \<Rightarrow> True
                  | Some t \<Rightarrow> 7200000 \<le> now_alert_check env - t)
                 \<and> sendFailureAlert env = Inr True
              then Some (now_alert env)
              else failure_alert_stamp (user.telegramChatId u) p w)
       \<and> (\<forall>t. failure_alert_stamp (user.telegramChatId u) p w = Some t
                \<and> now_alert_check env - t < 7200000
              \<longrightarrow> bot_calls (handleProviderFailure env u p msg w) = bot_calls w)"
proof -
  from assms obtain u0 where u0: "getUserByChatId (user.telegramChatId u) w = Some u0" by blast
  show ?thesis
    by (cases "of_provider p (lastFailureAlert u0)"; cases "sendFailureAlert env")
       (auto simp: handleProviderFailure_def Let_def canSendFailureAlert_def
          failure_alert_stamp_def FAILURE_ALERT_COOLDOWN_MS_def u0
          getUserByChatId_recordProviderError getUserByChatId_recordFailureAlert
          split: sum.splits option.splits)
qed

theorem failure_alert_cooldown_witness:
  "bot_calls (handleProviderFailure sweep_failing user_a Gmail ''invalid_grant'' example_world)
     = [SendFailureAlert ''1001'' Gmail ''invalid_grant'' (Inr True)]
   \<and> failure_alert_stamp ''1001'' Gmail
       (handleProviderFailure sweep_failing user_a Gmail ''invalid_grant'' example_world)
     = Some 1000500
   \<and> bot_calls (handleProviderFailure sweep_failing user_a Gmail ''invalid_grant''
        (handleProviderFailure sweep_failing user_a Gmail ''invalid_grant'' example_world))
     = [SendFailureAlert ''1001'' Gmail ''invalid_grant'' (Inr True)]"
proof -
  let ?w1 = "handleProviderFailure sweep_failing user_a Gmail ''invalid_grant'' example_world"
  have c: "user.telegramChatId user_a = ''1001''" by (simp add: user_a_def example_user_def)
  have h: "getUserByChatId (user.telegramChatId user_a) example_world \<noteq> None"
    by (simp add: getUserByChatId_def example_world_def user_a_def example_user_def)
  have s0: "failure_alert_stamp ''1001'' Gmail example_world = None"
    by (simp add: failure_alert_stamp_def getUserByChatId_def example_world_def user_a_def
        example_user_def of_provider_def)
  have env: "sendFailureAlert sweep_failing = Inr True" "now_alert sweep_failing = 1000500"
    "now_alert_check sweep_failing = 1000400"
    by (simp_all add: sweep_failing_def sweep_ok_def)
  have b0: "bot_calls example_world = []" by (simp add: example_world_def)
  from failure_alert_cooldown [OF h, of sweep_failing Gmail "''invalid_grant''"]
  have r1: "bot_calls ?w1 = [SendFailureAlert ''1001'' Gmail ''invalid_grant'' (Inr True)]"
    and r2: "failure_alert_stamp ''1001'' Gmail ?w1 = Some 1000500"
    by (simp_all add: c s0 env b0)
  from r2 have h': "getUserByChatId (user.telegramChatId user_a) ?w1 \<noteq> None"
    by (auto simp: failure_alert_stamp_def c split: option.splits)
  from failure_alert_cooldown [OF h', of sweep_failing Gmail "''invalid_grant''"]
  have r3: "bot_calls (handleProviderFailure sweep_failing user_a Gmail ''invalid_grant'' ?w1)
              = bot_calls ?w1"
    by (simp add: c r2 env)
  from r1 r2 r3 show ?thesis by simp
qed

section \<open>Repeated sweeps\<close>

text \<open>
  A message recorded as notified for a chat is skipped by every later sweep of that
  chat: no further notification of it is delivered and its records stay as they are.
  A successful delivery records the message as notified for the chat provided that no
  document of another chat or message carries its unique id.
\<close>

lemma isEmailNotified_iff:
  "isEmailNotified c p mid w \<longleftrightarrow>
     (\<exists>d\<in>set (emails w). email_doc.telegramChatId d = c \<and> provider (message d) = p
                          \<and> messageId (message d) = mid \<and> notified d)"
  by (auto simp: isEmailNotified_def find_None_iff)

lemma Email_findOneAndUpdate_member:
  assumes "d \<in> set ds"
  shows "d \<in> set (Email_findOneAndUpdate k f ins ds) \<or> f d \<in> set (Email_findOneAndUpdate k f ins ds)"
  using assms by (induction ds) auto

lemma Email_findOneAndUpdate_count:
  assumes "\<And>d. Q (f d) = Q d" and "\<not> Q ins"
  shows "length (filter Q (Email_findOneAndUpdate k f ins ds)) = length (filter Q ds)"
  using assms by (induction ds) auto

lemma isEmailNotified_saveEmail:
  assumes "isEmailNotified c p mid w"
  shows "isEmailNotified c p mid (saveEmail t u e cl w)"
proof -
  let ?f = "\<lambda>d. d\<lparr>classification := classification_fields cl, notified := True,
                     notifiedAt := Some t\<rparr>"
  from assms obtain d where d: "d \<in> set (emails w)" "email_doc.telegramChatId d = c"
    "provider (message d) = p" "messageId (message d) = mid" "notified d"
    unfolding isEmailNotified_iff by blast
  have "d \<in> set (emails (saveEmail t u e cl w)) \<or> ?f d \<in> set (emails (saveEmail t u e cl w))"
    using Email_findOneAndUpdate_member [OF d(1)] by (simp add: saveEmail_def Let_def)
  then show ?thesis
  proof
    assume "d \<in> set (emails (saveEmail t u e cl w))"
    with d show ?thesis unfolding isEmailNotified_iff by blast
  next
    assume m: "?f d \<in> set (emails (saveEmail t u e cl w))"
    have "email_doc.telegramChatId (?f d) = c \<and> provider (message (?f d)) = p
        \<and> messageId (message (?f d)) = mid \<and> notified (?f d)"
      using d by simp
    with m show ?thesis unfolding isEmailNotified_iff by blast
  qed
qed

lemma notification_records_saveEmail:
  assumes "provider e \<noteq> p \<or> messageId e \<noteq> mid"
  shows "notification_records c p mid (saveEmail t u e cl w) = notification_records c p mid w"
  unfolding notification_records_def saveEmail_def Let_def
  using assms by (simp add: Email_findOneAndUpdate_count)

lemma step_skips_notified:
  assumes "isEmailNotified (user.telegramChatId u) p (messageId e) w"
  shows "processProvider_step env u p e (r, w) = (r, w)"
  using assms by (simp add: processProvider_step_def)

lemma step_marks_notified:
  assumes "\<not> isEmailNotified (user.telegramChatId u) p (messageId e) w"
    and "truthy (map_of (classifyEmail (ai env e) e) ''important'')"
    and "categoryEnabled u (classifyEmail (ai env e) e)"
    and "sendEmailNotification env e = Inr True"
    and "provider e = p"
    and "\<forall>d\<in>set (emails w). uniqueId d = provider_name (provider e) @ ''_'' @ messageId e
            \<longrightarrow> email_doc.telegramChatId d = user.telegramChatId u
              \<and> provider (message d) = provider e \<and> messageId (message d) = messageId e"
  shows "isEmailNotified (user.telegramChatId u) p (messageId e)
           (snd (processProvider_step env u p e (r, w)))"
proof -
  let ?k = "provider_name (provider e) @ ''_'' @ messageId e"
  let ?cl = "classifyEmail (ai env e) e"
  let ?f = "\<lambda>d. d\<lparr>classification := classification_fields ?cl, notified := True,
                     notifiedAt := Some (now_saved env e)\<rparr>"
  let ?ins = "\<lparr>userId = uid u, telegramChatId = user.telegramChatId u, uniqueId = ?k,
              message = e, classification = classification_fields ?cl, notified = True,
              notifiedAt = Some (now_saved env e), createdAt = now_saved env e\<rparr>"
  have em: "emails (snd (processProvider_step env u p e (r, w)))
              = Email_findOneAndUpdate ?k ?f ?ins (emails w)"
    using assms(1-4) by (simp add: processProvider_step_def Let_def saveEmail_def)
  have "\<exists>d\<in>set (Email_findOneAndUpdate ?k ?f ?ins ds).
          (d = ?ins) \<or> (\<exists>d0\<in>set ds. uniqueId d0 = ?k \<and> d = ?f d0)" for ds
    by (induction ds) auto
  then obtain d where d: "d \<in> set (Email_findOneAndUpdate ?k ?f ?ins (emails w))"
    and dj: "d = ?ins \<or> (\<exists>d0\<in>set (emails w). uniqueId d0 = ?k \<and> d = ?f d0)"
    by blast
  from dj assms(5,6) have "email_doc.telegramChatId d = user.telegramChatId u
      \<and> provider (message d) = p \<and> messageId (message d) = messageId e \<and> notified d"
    by auto
  with d show ?thesis
    unfolding isEmailNotified_iff em by blast
qed

lemma step_keeps_notified:
  assumes "isEmailNotified c p mid (snd st)"
  shows "isEmailNotified c p mid (snd (processProvider_step env u q e st))"
  using assms
  by (cases st)
     (auto simp: processProvider_step_def Let_def isEmailNotified_saveEmail split: sum.splits)

lemma step_other_message:
  assumes "isEmailNotified (user.telegramChatId u) p mid (snd st)" and "provider e = p"
  shows "notifications_delivered (user.telegramChatId u) p mid
           (snd (processProvider_step env u p e st))
         = notifications_delivered (user.telegramChatId u) p mid (snd st)
       \<and> notification_records (user.telegramChatId u) p mid
           (snd (processProvider_step env u p e st))
         = notification_records (user.telegramChatId u) p mid (snd st)"
proof (cases "messageId e = mid")
  case True
  obtain r w where st: "st = (r, w)" by force
  show ?thesis
    using assms True by (simp add: st step_skips_notified)
next
  case False
  obtain r w where st: "st = (r, w)" by force
  have rec: "notification_records (user.telegramChatId u) p mid (saveEmail t u e cl w')
               = notification_records (user.telegramChatId u) p mid w'" for t cl w'
    using False by (simp add: notification_records_saveEmail)
  have rec': "notification_records c p mid (w'\<lparr>bot_calls := b\<rparr>) = notification_records c p mid w'"
    for c w' b
    by (simp add: notification_records_def)
  show ?thesis
    using False
    by (auto simp: st processProvider_step_def Let_def notifications_delivered_def rec rec'
          split: sum.splits)
qed

lemma fold_other_messages:
  assumes "isEmailNotified (user.telegramChatId u) p mid (snd st)"
    and "\<forall>e\<in>set es. provider e = p"
  shows "notifications_delivered (user.telegramChatId u) p mid
           (snd (fold (processProvider_step env u p) es st))
         = notifications_delivered (user.telegramChatId u) p mid (snd st)
       \<and> notification_records (user.telegramChatId u) p mid
           (snd (fold (processProvider_step env u p) es st))
         = notification_records (user.telegramChatId u) p mid (snd st)
       \<and> isEmailNotified (user.telegramChatId u) p mid
           (snd (fold (processProvider_step env u p) es st))"
  using assms
proof (induction es arbitrary: st)
  case Nil
  then show ?case by simp
next
  case (Cons e es)
  have k: "isEmailNotified (user.telegramChatId u) p mid (snd (processProvider_step env u p e st))"
    using Cons.prems(1) by (rule step_keeps_notified)
  have pe: "provider e = p" and rest: "\<forall>e\<in>set es. provider e = p"
    using Cons.prems(2) by simp_all
  show ?case
    using Cons.IH [OF k rest] step_other_message [OF Cons.prems(1) pe] by simp
qed

lemma notified_message_is_skipped:
  assumes "isEmailNotified (user.telegramChatId u) p mid w"
    and "fetchEmails env (refreshToken (of_provider p (providers u)))
           (getSinceTimestamp (now_since env) u p) = Inr fetched"
    and "\<forall>e\<in>set fetched. provider e = p"
  shows "notifications_delivered (user.telegramChatId u) p mid (snd (processProvider env u p w))
         = notifications_delivered (user.telegramChatId u) p mid w
       \<and> notification_records (user.telegramChatId u) p mid (snd (processProvider env u p w))
         = notification_records (user.telegramChatId u) p mid w
       \<and> isEmailNotified (user.telegramChatId u) p mid (snd (processProvider env u p w))"
proof -
  let ?st = "(\<lparr>emailsScanned = length fetched, importantFound = 0, notificationsSent = 0\<rparr>, w)"
  have a: "isEmailNotified (user.telegramChatId u) p mid (snd ?st)" using assms(1) by simp
  have u: "notifications_delivered c p mid (updateLastChecked t c' q w')
             = notifications_delivered c p mid w'
         \<and> notification_records c p mid (updateLastChecked t c' q w')
             = notification_records c p mid w'
         \<and> isEmailNotified c p mid (updateLastChecked t c' q w') = isEmailNotified c p mid w'"
    for c t c' q w'
    by (simp add: notifications_delivered_def notification_records_def isEmailNotified_def
        updateLastChecked_def)
  show ?thesis
    using fold_other_messages [OF a assms(3), of env]
    by (simp add: processProvider_fetched [OF assms(2)] u)
qed

text \<open>
  Claim C1 says that a message delivered in one sweep is skipped by the next sweep of
  the same recipient. \<open>saveEmail\<close> looks the document up by the unique id alone, while
  \<open>isEmailNotified\<close> looks it up by chat id, provider and message id. After the first
  user has been notified of the Gmail message \<open>m1\<close>, the notification of the second
  user for a Gmail message with the same id updates the document of the first user. The
  second user is still not recorded as notified, is notified again by the next sweep,
  and never gets a record.
\<close>

theorem second_recipient_notified_twice:
  "notifications_delivered ''1002'' Gmail ''m1'' after_b1 = 1
   \<and> \<not> isEmailNotified ''1002'' Gmail ''m1'' after_b1
   \<and> notifications_delivered ''1002'' Gmail ''m1'' after_b2 = 2
   \<and> notification_records ''1002'' Gmail ''m1'' after_b2 = 0"
  by code_simp

text \<open>
  Claim C4 says that for a message classified important with its category enabled the
  notification record is written exactly when the delivery call returned true. The
  same mismatch of keys breaks it. The second user has no record of the message, the
  message is important and its category enabled, and the delivery call returns true;
  the notification is counted as sent. But \<open>saveEmail\<close> finds the document of the first
  user under the unique id: afterwards the only document still carries the chat id and
  the message of the first user, now with the classification of the second message, and
  the second user has no record and is not marked notified.
\<close>

theorem delivered_but_not_recorded:
  "\<not> isEmailNotified ''1002'' Gmail ''m1'' after_a
   \<and> truthy (map_of (classifyEmail (ai sweep_ok second_message) second_message) ''important'')
   \<and> categoryEnabled user_b (classifyEmail (ai sweep_ok second_message) second_message)
   \<and> sendEmailNotification sweep_ok second_message = Inr True
   \<and> notificationsSent (fst step_b) = 1
   \<and> \<not> isEmailNotified ''1002'' Gmail ''m1'' (snd step_b)
   \<and> notification_records ''1002'' Gmail ''m1'' (snd step_b) = 0
   \<and> map email_doc.telegramChatId (emails (snd step_b)) = [''1001'']
   \<and> map message (emails (snd step_b)) = [example_important]
   \<and> map classification (emails (snd step_b))
       = [[(''important'', JBool True), (''category'', JStr ''INTERVIEW''),
           (''confidence'', JNum (4 / 5)),
           (''reason'', JStr ''Matched keywords: interview schedule, interview''),
           (''method'', JStr ''keyword'')]]"
  by code_simp

section \<open>Properties of the run\<close>

lemma chatId_provider_block [simp]:
  "chatId (fst (provider_block env u p st)) = chatId (fst st)"
  by (cases st) (simp add: provider_block_def Let_def split: prod.splits sum.splits)

lemma chatId_processUserEmails [simp]:
  "chatId (fst (processUserEmails env u w)) = user.telegramChatId u"
  by (simp add: processUserEmails_def Let_def)

lemma cron_fold:
  "usersProcessed (fst (fold (cron_user env) us st)) = usersProcessed (fst st) + length us
   \<and> map chatId (userResults (fst (fold (cron_user env) us st)))
       = map chatId (userResults (fst st)) @ map user.telegramChatId us"
proof (induction us arbitrary: st)
  case Nil
  then show ?case by simp
next
  case (Cons u us)
  obtain s w where st: "st = (s, w)" by force
  obtain r w' where r: "processUserEmails (sweep env (user.telegramChatId u)) u w = (r, w')"
    by force
  have c: "chatId r = user.telegramChatId u"
    using chatId_processUserEmails [of "sweep env (user.telegramChatId u)" u w] r by simp
  show ?case
    using Cons.IH [of "cron_user env u st"] by (simp add: st cron_user_def r c)
qed

text \<open>
  Claim C9, amended. The users the run iterates are exactly the stored users that are
  active and have at least one provider enabled; whether notifications are enabled is
  not part of the selection. When the initialisation succeeds every selected user is
  counted in \<open>usersProcessed\<close> and has an entry in the per-user results. A user whose
  notifications are paused gets an empty result and no provider is swept for them.
\<close>

theorem active_recipient_selection:
  "set (getActiveUsers w)
     = {u \<in> set (users w).
          isActive u \<and> (enabled (gmail (providers u)) \<or> enabled (outlook (providers u)))}
   \<and> (ensureInitialized env = None \<longrightarrow>
        (\<exists>s. fst (cron_check env w) = Inr s
            \<and> usersProcessed s = length (getActiveUsers w)
            \<and> map chatId (userResults s) = map user.telegramChatId (getActiveUsers w)))
   \<and> (\<not> notificationsEnabled (settings u) \<longrightarrow>
        processUserEmails penv u w
          = (\<lparr>emailsScanned = 0, importantFound = 0, notificationsSent = 0,
               name = firstName u, chatId = user.telegramChatId u, errors = []\<rparr>, w))"
proof -
  have a: "set (getActiveUsers w)
     = {u \<in> set (users w).
          isActive u \<and> (enabled (gmail (providers u)) \<or> enabled (outlook (providers u)))}"
    by (auto simp: getActiveUsers_def)
  have b: "ensureInitialized env = None \<longrightarrow>
        (\<exists>s. fst (cron_check env w) = Inr s
            \<and> usersProcessed s = length (getActiveUsers w)
            \<and> map chatId (userResults s) = map user.telegramChatId (getActiveUsers w))"
    using cron_fold [of env "getActiveUsers w"
        "(\<lparr>emailsScanned = 0, importantFound = 0, notificationsSent = 0,
           usersProcessed = 0, failures = 0, userResults = []\<rparr>, w)"]
    by (auto simp: cron_check_def split: prod.splits)
  have c: "\<not> notificationsEnabled (settings u) \<longrightarrow>
        processUserEmails penv u w
          = (\<lparr>emailsScanned = 0, importantFound = 0, notificationsSent = 0,
               name = firstName u, chatId = user.telegramChatId u, errors = []\<rparr>, w)"
    by (simp add: processUserEmails_def)
  from a b c show ?thesis by blast
qed

theorem active_recipient_selection_witness:
  "(\<exists>s. fst (cron_check run_ok example_world) = Inr s \<and> usersProcessed s = 3)
   \<and> fst (processUserEmails (\<lambda>p. sweep_ok) user_paused example_world)
       = \<lparr>emailsScanned = 0, importantFound = 0, notificationsSent = 0,
          name = ''User'', chatId = ''1003'', errors = []\<rparr>"
proof -
  have i: "ensureInitialized run_ok = None" by (simp add: run_ok_def)
  have n: "length (getActiveUsers example_world) = 3"
    by (simp add: getActiveUsers_def example_world_def user_a_def user_b_def user_paused_def
        example_user_def)
  have p: "\<not> notificationsEnabled (settings user_paused)"
    by (simp add: user_paused_def example_user_def)
  have f: "firstName user_paused = ''User''" "user.telegramChatId user_paused = ''1003''"
    by (simp_all add: user_paused_def example_user_def)
  from active_recipient_selection [of example_world run_ok user_paused "\<lambda>p. sweep_ok"] i n p f
  show ?thesis by auto
qed

text \<open>
  Claim C9, as stated: the selected users are those that are active, have a provider
  enabled and have notifications enabled. It fails: a user with notifications paused
  is selected.
\<close>

theorem paused_user_is_selected:
  "user_paused \<in> set (getActiveUsers example_world)
   \<and> \<not> notificationsEnabled (settings user_paused)"
  by (simp add: getActiveUsers_def example_world_def user_paused_def example_user_def)

end
